theory Spec2Isabelle
  imports Main "HOL-Library.Multiset"
begin

section \<open>Python values, exceptions and effects\<close>

text \<open>
  The script \<^verbatim>\<open>src/data/make_dataset.py\<close> is embedded function by function; a
  function keeps its name, without the leading underscore of a private name.
  An exception of the script is a value of \<open>error\<close>. \<open>LibraryError\<close> stands for any
  exception raised inside a call of numpy, nilearn or nibabel whose cause lies in the
  files on disk; its argument names the call.  \<open>PatternNotModelled\<close> is not a Python
  exception: it marks a regular expression outside the fragment of the pattern syntax
  that \<open>task_atoms\<close> below interprets.
\<close>

datatype error =
    AssertionError
  | UnboundLocalError string
  | NameError string
  | IndexError
  | KeyError string
  | AttributeError
  | TypeError
  | LibraryError string
  | PatternNotModelled

text \<open>
  What a run does to the outside world, in the order it does it.  An image is the list
  of its frames along the time axis (the last axis of a 4D scan).
\<close>

datatype 'f event =
    Glob string string
  | ReadConfounds string
  | Clean string
  | Saved string "'f list"
  | Print string string

type_synonym ('a, 'f) io = "(error + 'a) \<times> 'f event list"

definition io_return :: "'a \<Rightarrow> ('a, 'f) io" where
  "io_return a = (Inr a, [])"

definition io_raise :: "error \<Rightarrow> ('a, 'f) io" where
  "io_raise e = (Inl e, [])"

definition io_emit :: "'f event \<Rightarrow> (unit, 'f) io" where
  "io_emit ev = (Inr (), [ev])"

text \<open>Sequencing: an exception ends the computation and keeps the events before it.\<close>

definition io_bind :: "('a, 'f) io \<Rightarrow> ('a \<Rightarrow> ('b, 'f) io) \<Rightarrow> ('b, 'f) io" where
  "io_bind m f =
     (case m of
        (Inl e, es) \<Rightarrow> (Inl e, es)
      | (Inr a, es) \<Rightarrow> (case f a of (r, es') \<Rightarrow> (r, es @ es')))"

definition io_lift :: "error + 'a \<Rightarrow> ('a, 'f) io" where
  "io_lift r = (r, [])"

text \<open>Python's \<^verbatim>\<open>xs[:k]\<close> and \<^verbatim>\<open>xs[n]\<close> for \<open>n\<close> from \<^verbatim>\<open>enumerate\<close>.\<close>

definition py_slice_to :: "int \<Rightarrow> 'a list \<Rightarrow> 'a list" where
  "py_slice_to k xs =
     (if k < 0 then take (length xs - nat (- k)) xs else take (nat k) xs)"

definition py_index :: "'a list \<Rightarrow> nat \<Rightarrow> error + 'a" where
  "py_index xs n = (if n < length xs then Inr (xs ! n) else Inl IndexError)"

section \<open>The data dictionary\<close>

text \<open>
  The value of one task: a dict with the keys \<^verbatim>\<open>'segment_lengths'\<close>, \<^verbatim>\<open>'regr_str'\<close>
  and \<^verbatim>\<open>'tmpl_str'\<close>, in this order.
\<close>

record entry =
  key_segment_lengths :: "int list"
  key_regr_str :: string
  key_tmpl_str :: string

definition subjects :: "string list" where
  "subjects = [''sub-01'', ''sub-02'', ''sub-03'', ''sub-04'', ''sub-05'', ''sub-06'']"

text \<open>
  \<^verbatim>\<open>[_ for x in xs for _ in (x,)*2]\<close>: every element twice, in place.
\<close>

definition pairs_of :: "'a list \<Rightarrow> 'a list" where
  "pairs_of xs = concat (map (\<lambda>x. replicate 2 x) xs)"

text \<open>
  A dict comprehension over a \<^verbatim>\<open>zip\<close> of four lists; the dictionary keeps insertion
  order, so it is an association list (the four keys are distinct).
\<close>

fun zip4 :: "'a list \<Rightarrow> 'b list \<Rightarrow> 'c list \<Rightarrow> 'd list \<Rightarrow> ('a \<times> 'b \<times> 'c \<times> 'd) list" where
  "zip4 (a # as) (b # bs) (c # cs) (d # ds) = (a, b, c, d) # zip4 as bs cs ds"
| "zip4 _ _ _ _ = []"

definition create_data_dictionary :: "string list \<times> (string \<times> entry) list" where
  "create_data_dictionary =
     (let tasks = [''bourne'', ''wolf'', ''figures'', ''life''];
          segment_lengths =
            [[403, 405, 405, 405, 405, 405, 405, 405, 405, 380],
             [406, 406, 406, 406, 406, 406, 406, 406, 406, 406,
              406, 406, 406, 406, 406, 406, 498],
             [410, 410, 410, 409, 408, 410, 410, 409, 410, 409, 409, 373],
             [406, 406, 406, 406, 384]];
          regr_str = [''desc-confounds_regressors.tsv'',
                      ''run-1_desc-confounds_regressors.tsv''];
          tmpl_str = [''space-MNI152NLin2009cAsym_desc-preproc_bold'',
                      ''run-1_space-MNI152NLin2009cAsym_desc-preproc_bold''];
          regr_pairs = pairs_of regr_str;
          tmpl_pairs = pairs_of tmpl_str
      in (tasks,
          map (\<lambda>(t, seg_len, regr, tmpl).
                 (t, \<lparr>key_segment_lengths = seg_len, key_regr_str = regr,
                     key_tmpl_str = tmpl\<rparr>))
              (zip4 tasks segment_lengths regr_pairs tmpl_pairs)))"

section \<open>Confound selection\<close>

text \<open>
  A numpy structured array: the field names of its dtype and one record per row, a row
  holding one value per field.  Values are kept abstract.
\<close>

record 'v recarray =
  field_names :: "string list"
  recs :: "'v list list"

definition wf_recarray :: "'v recarray \<Rightarrow> bool" where
  "wf_recarray a \<longleftrightarrow>
     distinct (field_names a) \<and> list_all (\<lambda>r. length r = length (field_names a)) (recs a)"

text \<open>The value of field \<open>nm\<close> in row \<open>i\<close>.\<close>

definition cell :: "'v recarray \<Rightarrow> nat \<Rightarrow> string \<Rightarrow> 'v option" where
  "cell a i nm = (if i < length (recs a) then map_of (zip (field_names a) (recs a ! i)) nm else None)"

fun field_index :: "string list \<Rightarrow> string \<Rightarrow> nat option" where
  "field_index [] nm = None"
| "field_index (f # fs) nm = (if f = nm then Some 0 else map_option Suc (field_index fs nm))"

fun field_indices :: "string list \<Rightarrow> string list \<Rightarrow> error + nat list" where
  "field_indices fs [] = Inr []"
| "field_indices fs (nm # nms) =
     (case field_index fs nm of
        None \<Rightarrow> Inl (KeyError nm)
      | Some i \<Rightarrow> (case field_indices fs nms of Inl e \<Rightarrow> Inl e | Inr ixs \<Rightarrow> Inr (i # ixs)))"

text \<open>
  \<^verbatim>\<open>confounds[keep_confounds]\<close>: indexing with a list of field names gives the array
  of the same rows restricted to these fields, in the order of the list; a name that is
  no field raises \<^verbatim>\<open>KeyError\<close>.
\<close>

definition select_fields :: "'v recarray \<Rightarrow> string list \<Rightarrow> error + 'v recarray" where
  "select_fields a nms =
     (case field_indices (field_names a) nms of
        Inl e \<Rightarrow> Inl e
      | Inr ixs \<Rightarrow> Inr \<lparr>field_names = nms, recs = map (\<lambda>r. map (\<lambda>i. r ! i) ixs) (recs a)\<rparr>)"

text \<open>\<^verbatim>\<open>recfunctions.structured_to_unstructured\<close>: the rows as a plain 2D array.\<close>

definition structured_to_unstructured :: "'v recarray \<Rightarrow> 'v list list" where
  "structured_to_unstructured a = recs a"

text \<open>A decimal floating-point literal of the source, mantissa and decimal exponent.\<close>

datatype pyfloat = Decimal int int

record masker =
  mask_img :: string
  standardize :: bool
  detrend :: bool
  high_pass :: pyfloat
  t_r :: pyfloat
  smoothing_fwhm :: "int option"

text \<open>
  The calls into numpy, nilearn, nibabel and the file system.  Their results depend on
  the files on disk, so they are parameters of the model; \<open>None\<close> (\<open>False\<close> for
  \<open>nib_save\<close>) is a call that raises.
  \<^item> \<open>recfromcsv p\<close>: \<^verbatim>\<open>np.recfromcsv(p, delimiter='\t')\<close>;
  \<^item> \<open>fit_transform m scan confounds\<close> and \<open>inverse_transform m signals\<close>: the two
    methods of the \<^verbatim>\<open>NiftiMasker\<close> built with the keyword arguments \<open>m\<close>;
  \<^item> \<open>nib_save img name\<close>: \<^verbatim>\<open>nib.save(img, name)\<close>;
  \<^item> \<open>rglob dir pat\<close>: \<^verbatim>\<open>[str(f) for f in Path(dir).rglob(pat)]\<close>.
\<close>

record ('v, 'f) lib =
  recfromcsv :: "string \<Rightarrow> 'v recarray option"
  fit_transform :: "masker \<Rightarrow> string \<Rightarrow> 'v list list \<Rightarrow> 'v list list option"
  inverse_transform :: "masker \<Rightarrow> 'v list list \<Rightarrow> 'f list option"
  nib_save :: "'f list \<Rightarrow> string \<Rightarrow> bool"
  rglob :: "string \<Rightarrow> string \<Rightarrow> string list"

definition keep_confounds :: "string list" where
  "keep_confounds = [''trans_x'', ''trans_y'', ''trans_z'',
                     ''rot_x'', ''rot_y'', ''rot_z'',
                     ''csf'', ''white_matter'']"

definition subset_confounds :: "('v, 'f) lib \<Rightarrow> string \<Rightarrow> ('v recarray, 'f) io" where
  "subset_confounds L tsv =
     io_bind (io_emit (ReadConfounds tsv)) (\<lambda>_.
       case recfromcsv L tsv of
         None \<Rightarrow> io_raise (LibraryError ''np.recfromcsv'')
       | Some confounds \<Rightarrow> io_lift (select_fields confounds keep_confounds))"

section \<open>Cleaning one segment\<close>

definition nifti_mask_movie ::
  "('v, 'f) lib \<Rightarrow> string \<Rightarrow> string \<Rightarrow> 'v list list \<Rightarrow> int option \<Rightarrow> ('f list, 'f) io" where
  "nifti_mask_movie L scan mask_file confounds fwhm =
     (let m = \<lparr>mask_img = mask_file, standardize = True, detrend = True,
                high_pass = Decimal 1 (- 2), t_r = Decimal 149 (- 2),
                smoothing_fwhm = fwhm\<rparr>
      in io_bind (io_emit (Clean scan)) (\<lambda>_.
           case fit_transform L m scan confounds of
             None \<Rightarrow> io_raise (LibraryError ''NiftiMasker.fit_transform'')
           | Some cleaned \<Rightarrow>
               (case inverse_transform L m cleaned of
                  None \<Rightarrow> io_raise (LibraryError ''NiftiMasker.inverse_transform'')
                | Some img \<Rightarrow> io_return img)))"

section \<open>Truncating, concatenating and writing\<close>

text \<open>
  \<^verbatim>\<open>img.slicer[..., :k]\<close>: the first frames of the image as Python slices the time
  axis; nibabel refuses a slice that leaves no frame (\<^verbatim>\<open>IndexError\<close>).
  \<^verbatim>\<open>image.concat_imgs\<close> puts the frames of the images one after the other and refuses an
  empty list of images (\<^verbatim>\<open>TypeError\<close>).
\<close>

definition slicer_time :: "'f list \<Rightarrow> int \<Rightarrow> error + 'f list" where
  "slicer_time img k =
     (let out = py_slice_to k img in if out = [] then Inl IndexError else Inr out)"

definition concat_imgs :: "'f list list \<Rightarrow> error + 'f list" where
  "concat_imgs imgs = (if imgs = [] then Inl TypeError else Inr (concat imgs))"

text \<open>\<^verbatim>\<open>str\<close> of an integer, and of \<^verbatim>\<open>None\<close>, as an f-string formats them.\<close>

definition digit_char :: "nat \<Rightarrow> char" where
  "digit_char d = char_of (48 + d)"

fun str_nat :: "nat \<Rightarrow> string" where
  "str_nat n = (if n < 10 then [digit_char n] else str_nat (n div 10) @ [digit_char (n mod 10)])"

definition str_int :: "int \<Rightarrow> string" where
  "str_int i = (if i < 0 then CHR ''-'' # str_nat (nat (- i)) else str_nat (nat i))"

definition str_fwhm :: "int option \<Rightarrow> string" where
  "str_fwhm fwhm = (case fwhm of None \<Rightarrow> ''None'' | Some i \<Rightarrow> str_int i)"

text \<open>
  \<^verbatim>\<open>s.replace(old, new)\<close>: every occurrence of \<open>old\<close>, left to right and without
  overlap; an empty \<open>old\<close> matches before every character and at the end.
\<close>

fun replace_from :: "string \<Rightarrow> string \<Rightarrow> string \<Rightarrow> string" where
  "replace_from old new [] = []"
| "replace_from old new (c # cs) =
     (if old \<noteq> [] \<and> take (length old) (c # cs) = old
      then new @ replace_from old new (drop (length old - 1) cs)
      else c # replace_from old new cs)"

definition replace :: "string \<Rightarrow> string \<Rightarrow> string \<Rightarrow> string" where
  "replace old new s =
     (if old = [] then new @ concat (map (\<lambda>c. c # new) s) else replace_from old new s)"

text \<open>
  The module-level names that \<^verbatim>\<open>subset_and_process_movie10\<close> reads without having
  them as parameters: \<^verbatim>\<open>s\<close>, \<^verbatim>\<open>t\<close>, \<^verbatim>\<open>seg_len\<close> and \<^verbatim>\<open>tmpl\<close>.  The main loop
  binds them; \<open>None\<close> is a name not bound (reading it raises \<^verbatim>\<open>NameError\<close>).
\<close>

record globals =
  var_s :: "string option"
  var_t :: "string option"
  var_seg_len :: "int list option"
  var_tmpl :: "string option"

definition read_global :: "string \<Rightarrow> 'a option \<Rightarrow> ('a, 'f) io" where
  "read_global name v = (case v of None \<Rightarrow> io_raise (NameError name) | Some x \<Rightarrow> io_return x)"

definition tpl_mask :: string where
  "tpl_mask = ''./tpl-MNI152NLin2009cAsym_res-02_desc-brain_mask.nii.gz''"

text \<open>\<^verbatim>\<open>[_subset_confounds(r) for r in regressor_segments]\<close>\<close>

fun load_confounds :: "('v, 'f) lib \<Rightarrow> string list \<Rightarrow> ('v recarray list, 'f) io" where
  "load_confounds L [] = io_return []"
| "load_confounds L (r # rs) =
     io_bind (subset_confounds L r) (\<lambda>c.
     io_bind (load_confounds L rs) (\<lambda>cs. io_return (c # cs)))"

text \<open>
  The loop over \<^verbatim>\<open>enumerate(movie_segments)\<close>, from index \<open>n\<close> on, with the list
  \<^verbatim>\<open>postproc_segments\<close> built so far.  The argument \<^verbatim>\<open>confounds[n]\<close> is evaluated
  before the call of the cleaner, \<^verbatim>\<open>seg_len[n]\<close> after it.
\<close>

fun postproc_loop ::
  "('v, 'f) lib \<Rightarrow> globals \<Rightarrow> int option \<Rightarrow> 'v recarray list \<Rightarrow> nat \<Rightarrow> string list
     \<Rightarrow> 'f list list \<Rightarrow> ('f list list, 'f) io" where
  "postproc_loop L g fwhm confounds n [] postproc_segments = io_return postproc_segments"
| "postproc_loop L g fwhm confounds n (m # ms) postproc_segments =
     io_bind (io_lift (py_index confounds n)) (\<lambda>c.
     io_bind (nifti_mask_movie L m tpl_mask (structured_to_unstructured c) fwhm) (\<lambda>postproc.
     io_bind (read_global ''seg_len'' (var_seg_len g)) (\<lambda>seg_len.
     io_bind (io_lift (py_index seg_len n)) (\<lambda>k.
     io_bind (io_lift (slicer_time postproc k)) (\<lambda>cut.
       postproc_loop L g fwhm confounds (Suc n) ms (postproc_segments @ [cut]))))))"

definition postproc_fname :: "string \<Rightarrow> string \<Rightarrow> string \<Rightarrow> int option \<Rightarrow> string" where
  "postproc_fname s t tmpl fwhm =
     replace ''desc-preproc'' (''desc-fwhm'' @ str_fwhm fwhm)
       (s @ ''/'' @ s @ ''_task-'' @ t @ ''_'' @ tmpl @ ''.nii.gz'')"

text \<open>\<^verbatim>\<open>nib.save(movie, postproc_fname)\<close>: the file is there when the call returns.\<close>

definition save_image :: "('v, 'f) lib \<Rightarrow> 'f list \<Rightarrow> string \<Rightarrow> (unit, 'f) io" where
  "save_image L movie fname =
     (if nib_save L movie fname then io_emit (Saved fname movie)
      else io_raise (LibraryError ''nib.save''))"

text \<open>
  The assembler.  Its parameter \<open>segment_lengths\<close> is not read by the body: the loop
  reads the module-level \<^verbatim>\<open>seg_len\<close>.  With \<^verbatim>\<open>n_segments=None\<close> the two local
  lists are never assigned and the first read of one, \<^verbatim>\<open>regressor_segments\<close>, raises.
  The \<^verbatim>\<open>assert\<close> is executed (the interpreter is not run with \<^verbatim>\<open>-O\<close>).  The name
  of the output is computed before the segments are concatenated.
\<close>

definition subset_and_process_movie10 ::
  "('v, 'f) lib \<Rightarrow> globals \<Rightarrow> string list \<Rightarrow> string list \<Rightarrow> int list \<Rightarrow> int option
     \<Rightarrow> int option \<Rightarrow> (string, 'f) io" where
  "subset_and_process_movie10 L g bold_files regressors segment_lengths n_segments fwhm =
     (case n_segments of
        None \<Rightarrow> io_raise (UnboundLocalError ''regressor_segments'')
      | Some n \<Rightarrow>
          if \<not> n \<le> int (length bold_files) then io_raise AssertionError
          else
            io_bind (load_confounds L (py_slice_to n regressors)) (\<lambda>confounds.
            io_bind (postproc_loop L g fwhm confounds 0 (py_slice_to n bold_files) [])
              (\<lambda>postproc_segments.
            io_bind (read_global ''s'' (var_s g)) (\<lambda>s.
            io_bind (read_global ''t'' (var_t g)) (\<lambda>t.
            io_bind (read_global ''tmpl'' (var_tmpl g)) (\<lambda>tmpl.
            io_bind (io_lift (concat_imgs postproc_segments)) (\<lambda>movie.
            io_bind (save_image L movie (postproc_fname s t tmpl fwhm)) (\<lambda>_.
              io_return (postproc_fname s t tmpl fwhm)))))))))"

section \<open>Sorting files by segment\<close>

text \<open>
  The key of \<^verbatim>\<open>_get_segment\<close> is
  \<^verbatim>\<open>int(re.search(f'task-{task}(\d+)', x).group(1))\<close>.  The task name is pasted into the
  pattern unescaped, so its characters are read as pattern syntax.  The model reads an
  ordinary character as itself and \<^verbatim>\<open>.\<close> as any character but a newline; a task
  name with another metacharacter is outside the model.  File names are strings of 8-bit
  characters, where \<^verbatim>\<open>\d\<close> matches exactly \<^verbatim>\<open>0\<close> to \<^verbatim>\<open>9\<close>.
\<close>

datatype atom = Lit char | AnyChar

definition re_special :: "char list" where
  "re_special = ''.^$*+?{}[]|()'' @ [CHR 0x5C]"

fun task_atoms :: "string \<Rightarrow> atom list option" where
  "task_atoms [] = Some []"
| "task_atoms (c # cs) =
     (if c = CHR ''.'' then map_option ((#) AnyChar) (task_atoms cs)
      else if c \<in> set re_special then None
      else map_option ((#) (Lit c)) (task_atoms cs))"

definition segment_pattern :: "string \<Rightarrow> atom list option" where
  "segment_pattern task = map_option (\<lambda>p. map Lit ''task-'' @ p) (task_atoms task)"

fun atom_matches :: "atom \<Rightarrow> char \<Rightarrow> bool" where
  "atom_matches (Lit a) c \<longleftrightarrow> a = c"
| "atom_matches AnyChar c \<longleftrightarrow> c \<noteq> CHR 0x0A"

text \<open>The atoms match a prefix of the string: what is left of the string.\<close>

fun match_atoms :: "atom list \<Rightarrow> string \<Rightarrow> string option" where
  "match_atoms [] x = Some x"
| "match_atoms (a # as) [] = None"
| "match_atoms (a # as) (c # cs) = (if atom_matches a c then match_atoms as cs else None)"

definition is_digit :: "char \<Rightarrow> bool" where
  "is_digit c \<longleftrightarrow> c \<in> set ''0123456789''"

text \<open>
  A match of the atoms followed by \<^verbatim>\<open>(\d+)\<close> at the start of the string: the group,
  the longest run of digits there, which must not be empty.
\<close>

definition match_here :: "atom list \<Rightarrow> string \<Rightarrow> string option" where
  "match_here p x =
     (case match_atoms p x of
        None \<Rightarrow> None
      | Some rest \<Rightarrow>
          (let ds = takeWhile is_digit rest in if ds = [] then None else Some ds))"

text \<open>\<^verbatim>\<open>re.search\<close>: the leftmost position with a match; \<open>None\<close> when there is none.\<close>

fun re_search :: "atom list \<Rightarrow> string \<Rightarrow> string option" where
  "re_search p [] = match_here p []"
| "re_search p (c # cs) =
     (case match_here p (c # cs) of Some ds \<Rightarrow> Some ds | None \<Rightarrow> re_search p cs)"

definition digit_value :: "char \<Rightarrow> int" where
  "digit_value c = int (of_char c) - 48"

definition py_int :: "string \<Rightarrow> int" where
  "py_int ds = foldl (\<lambda>a c. 10 * a + digit_value c) 0 ds"

text \<open>\<^verbatim>\<open>None.group(1)\<close> raises \<^verbatim>\<open>AttributeError\<close>.\<close>

definition segment_key :: "atom list \<Rightarrow> string \<Rightarrow> error + int" where
  "segment_key p x =
     (case re_search p x of None \<Rightarrow> Inl AttributeError | Some ds \<Rightarrow> Inr (py_int ds))"

text \<open>
  \<^verbatim>\<open>sorted(xs, key=f)\<close> computes the key of every element first, in order (the first
  key that raises ends the call), then sorts stably by the keys.
\<close>

fun decorate :: "('a \<Rightarrow> error + 'k) \<Rightarrow> 'a list \<Rightarrow> error + ('k \<times> 'a) list" where
  "decorate f [] = Inr []"
| "decorate f (x # xs) =
     (case f x of
        Inl e \<Rightarrow> Inl e
      | Inr k \<Rightarrow> (case decorate f xs of Inl e \<Rightarrow> Inl e | Inr kxs \<Rightarrow> Inr ((k, x) # kxs)))"

definition py_sorted :: "('a \<Rightarrow> error + 'k::linorder) \<Rightarrow> 'a list \<Rightarrow> error + 'a list" where
  "py_sorted f xs =
     (case decorate f xs of Inl e \<Rightarrow> Inl e | Inr kxs \<Rightarrow> Inr (map snd (sort_key fst kxs)))"

text \<open>The pattern is built inside the key function: an empty list never builds it.\<close>

definition get_segment :: "string list \<Rightarrow> string \<Rightarrow> error + string list" where
  "get_segment files task =
     (if files = [] then Inr []
      else (case segment_pattern task of
              None \<Rightarrow> Inl PatternNotModelled
            | Some p \<Rightarrow> py_sorted (segment_key p) files))"

section \<open>The main program\<close>

text \<open>\<^verbatim>\<open>data_dictionary[t]\<close> and a consumed \<^verbatim>\<open>Path(dir).rglob(pat)\<close>.\<close>

definition lookup_task :: "(string \<times> entry) list \<Rightarrow> string \<Rightarrow> (entry, 'f) io" where
  "lookup_task data_dictionary t =
     (case map_of data_dictionary t of None \<Rightarrow> io_raise (KeyError t) | Some e \<Rightarrow> io_return e)"

definition list_files :: "('v, 'f) lib \<Rightarrow> string \<Rightarrow> string \<Rightarrow> (string list, 'f) io" where
  "list_files L dir pat = io_bind (io_emit (Glob dir pat)) (\<lambda>_. io_return (rglob L dir pat))"

text \<open>
  The loop body for the pair \<open>(s, t)\<close>, up to the call of the assembler.  The two
  generators of \<^verbatim>\<open>rglob\<close> are consumed where their lists are built, the BOLD files
  before the regressors; the loop binds the module-level names the assembler reads.
\<close>

definition pair_work ::
  "('v, 'f) lib \<Rightarrow> (string \<times> entry) list \<Rightarrow> string \<Rightarrow> string \<Rightarrow> (string, 'f) io" where
  "pair_work L data_dictionary s t =
     io_bind (lookup_task data_dictionary t) (\<lambda>e.
       (let seg_len = key_segment_lengths e; regr = key_regr_str e; tmpl = key_tmpl_str e;
            g = \<lparr>var_s = Some s, var_t = Some t, var_seg_len = Some seg_len,
                 var_tmpl = Some tmpl\<rparr>
        in io_bind (list_files L s (''*'' @ t @ ''*'' @ tmpl @ ''.nii.gz'')) (\<lambda>files.
           io_bind (io_lift (get_segment files t)) (\<lambda>movie_segments.
           io_bind (list_files L s (''*_task-'' @ t @ ''*'' @ regr)) (\<lambda>regressors.
           io_bind (io_lift (get_segment regressors t)) (\<lambda>regressor_segments.
             subset_and_process_movie10 L g movie_segments regressor_segments seg_len
               (Some 5) (Some 6)))))))"

text \<open>The work on the pair, then \<^verbatim>\<open>print(s, t)\<close>.\<close>

definition process_pair ::
  "('v, 'f) lib \<Rightarrow> (string \<times> entry) list \<Rightarrow> string \<Rightarrow> string \<Rightarrow> (unit, 'f) io" where
  "process_pair L data_dictionary s t =
     io_bind (pair_work L data_dictionary s t) (\<lambda>_. io_emit (Print s t))"

text \<open>\<^verbatim>\<open>for s, t in itertools.product(subjects, tasks)\<close>\<close>

fun main_loop ::
  "('v, 'f) lib \<Rightarrow> (string \<times> entry) list \<Rightarrow> (string \<times> string) list \<Rightarrow> (unit, 'f) io" where
  "main_loop L data_dictionary [] = io_return ()"
| "main_loop L data_dictionary ((s, t) # rest) =
     io_bind (process_pair L data_dictionary s t) (\<lambda>_. main_loop L data_dictionary rest)"

definition main :: "('v, 'f) lib \<Rightarrow> (unit, 'f) io" where
  "main L =
     (case create_data_dictionary of
        (tasks, data_dictionary) \<Rightarrow> main_loop L data_dictionary (List.product subjects tasks))"

text \<open>The grid of pairs the loop runs over, in the order of \<^verbatim>\<open>itertools.product\<close>.\<close>

definition grid :: "(string \<times> string) list" where
  "grid = List.product subjects (fst create_data_dictionary)"

section \<open>File names with a segment index\<close>

text \<open>
  The notions the claims about \<^verbatim>\<open>_get_segment\<close> use.  A task name is literal when
  none of its characters is a metacharacter of the pattern syntax.  A file name contains
  a task index when it has the substring \<^verbatim>\<open>task-\<close>, the task name and at least one
  decimal digit in a row, all read literally; its embedded index is the number written
  by the digits after the first such occurrence.
\<close>

definition literal_task :: "string \<Rightarrow> bool" where
  "literal_task task \<longleftrightarrow> list_all (\<lambda>c. c \<notin> set re_special) task"

definition contains_task_index :: "string \<Rightarrow> string \<Rightarrow> bool" where
  "contains_task_index task x \<longleftrightarrow>
     (\<exists>pre d post. x = pre @ ''task-'' @ task @ d # post \<and> is_digit d)"

definition literal_pattern :: "string \<Rightarrow> atom list" where
  "literal_pattern task = map Lit (''task-'' @ task)"

definition embedded_index :: "string \<Rightarrow> string \<Rightarrow> int option" where
  "embedded_index task x = map_option py_int (re_search (literal_pattern task) x)"

section \<open>Observations on a run\<close>

text \<open>The files a run has written, with their contents, in order.\<close>

fun saved :: "'f event list \<Rightarrow> (string \<times> 'f list) list" where
  "saved [] = []"
| "saved (Saved nm img # es) = (nm, img) # saved es"
| "saved (_ # es) = saved es"

text \<open>The pairs whose loop body has run to its end (the \<^verbatim>\<open>print\<close> of the pair).\<close>

fun printed :: "'f event list \<Rightarrow> (string \<times> string) list" where
  "printed [] = []"
| "printed (Print s t # es) = (s, t) # printed es"
| "printed (_ # es) = printed es"

datatype step = Locate | Load | CleanSegment | Write | Report

fun step_of :: "'f event \<Rightarrow> step" where
  "step_of (Glob _ _) = Locate"
| "step_of (ReadConfounds _) = Load"
| "step_of (Clean _) = CleanSegment"
| "step_of (Saved _ _) = Write"
| "step_of (Print _ _) = Report"

text \<open>
  The steps of one pair that runs to its end: two listings of files, five confound
  files loaded, five segments cleaned, one file written, the pair reported.
\<close>

definition pair_steps :: "step list" where
  "pair_steps = [Locate, Locate] @ replicate 5 Load @ replicate 5 CleanSegment @ [Write, Report]"

text \<open>
  The events of one pair that runs to its end, in full: both lists of files are located
  and sorted by segment, the confounds of the first five regressor files are loaded, the
  first five BOLD files are cleaned, one file is written under the name of the pair, and
  the pair is reported.
\<close>

definition pair_trace ::
  "('v, 'f) lib \<Rightarrow> (string \<times> entry) list \<Rightarrow> string \<times> string \<Rightarrow> 'f event list \<Rightarrow> bool" where
  "pair_trace L data_dictionary p es \<longleftrightarrow>
     (case p of (s, t) \<Rightarrow>
        \<exists>e ms rs movie.
          map_of data_dictionary t = Some e
        \<and> get_segment (rglob L s (''*'' @ t @ ''*'' @ key_tmpl_str e @ ''.nii.gz'')) t = Inr ms
        \<and> get_segment (rglob L s (''*_task-'' @ t @ ''*'' @ key_regr_str e)) t = Inr rs
        \<and> 5 \<le> length ms \<and> 5 \<le> length rs
        \<and> es = [Glob s (''*'' @ t @ ''*'' @ key_tmpl_str e @ ''.nii.gz''),
                 Glob s (''*_task-'' @ t @ ''*'' @ key_regr_str e)]
               @ map ReadConfounds (take 5 rs) @ map Clean (take 5 ms)
               @ [Saved (postproc_fname s t (key_tmpl_str e) (Some 6)) movie, Print s t])"

text \<open>
  The cleaned image of one segment: the confounds of regressor file \<open>r\<close> are selected
  and the scan \<open>m\<close> is cleaned with them, as the assembler does for each segment.
\<close>

definition cleaned_segment ::
  "('v, 'f) lib \<Rightarrow> int option \<Rightarrow> string \<Rightarrow> string \<Rightarrow> error + 'f list" where
  "cleaned_segment L fwhm m r =
     (case fst (subset_confounds L r) of
        Inl e \<Rightarrow> Inl e
      | Inr c \<Rightarrow> fst (nifti_mask_movie L m tpl_mask (structured_to_unstructured c) fwhm))"

section \<open>A small data set\<close>

text \<open>
  A concrete instance of the library calls, for running the model: every confound file
  holds the same three rows, the cleaner returns one frame per row, every write
  succeeds, and a directory holds six segments of every task, listed out of order.
\<close>

fun fill :: "string \<Rightarrow> string list \<Rightarrow> string" where
  "fill [] subs = []"
| "fill (c # cs) subs =
     (if c = CHR ''*''
      then (case subs of [] \<Rightarrow> fill cs [] | x # xs \<Rightarrow> x @ fill cs xs)
      else c # fill cs subs)"

definition demo_table :: "nat recarray" where
  "demo_table =
     \<lparr>field_names = [''csf'', ''global_signal'', ''white_matter'', ''trans_x'', ''trans_y'',
                      ''trans_z'', ''rot_x'', ''rot_y'', ''rot_z''],
      recs = [[1, 2, 3, 4, 5, 6, 7, 8, 9], [11, 12, 13, 14, 15, 16, 17, 18, 19],
              [21, 22, 23, 24, 25, 26, 27, 28, 29]]\<rparr>"

definition demo_lib :: "(nat, nat) lib" where
  "demo_lib =
     \<lparr>recfromcsv = (\<lambda>p. Some demo_table),
      fit_transform = (\<lambda>m scan confounds. Some confounds),
      inverse_transform = (\<lambda>m signals. Some (map sum_list signals)),
      nib_save = (\<lambda>img name. True),
      rglob = (\<lambda>dir pat.
         map (\<lambda>seg. dir @ ''/'' @ fill pat [dir @ ''_task-'', seg @ ''_''])
           [''10'', ''02'', ''01'', ''04'', ''03'', ''05''])\<rparr>"

definition demo_globals :: "int list \<Rightarrow> globals" where
  "demo_globals seg_len =
     \<lparr>var_s = Some ''sub-01'', var_t = Some ''bourne'', var_seg_len = Some seg_len,
      var_tmpl = Some ''space-MNI152NLin2009cAsym_desc-preproc_bold''\<rparr>"

text \<open>The same data set with files for the first subject only.\<close>

definition sub01_only_lib :: "(nat, nat) lib" where
  "sub01_only_lib =
     demo_lib\<lparr>rglob := (\<lambda>dir pat. if dir = ''sub-01'' then rglob demo_lib dir pat else [])\<rparr>"

section \<open>The data dictionary: its contents\<close>

lemma pairs_of_two: "pairs_of [a, b] = [a, a, b, b]"
  by (simp add: pairs_of_def numeral_2_eq_2)

lemma create_data_dictionary_value:
  "create_data_dictionary =
     ([''bourne'', ''wolf'', ''figures'', ''life''],
      [(''bourne'',
        \<lparr>key_segment_lengths = [403, 405, 405, 405, 405, 405, 405, 405, 405, 380],
         key_regr_str = ''desc-confounds_regressors.tsv'',
         key_tmpl_str = ''space-MNI152NLin2009cAsym_desc-preproc_bold''\<rparr>),
       (''wolf'',
        \<lparr>key_segment_lengths = [406, 406, 406, 406, 406, 406, 406, 406, 406, 406,
                                406, 406, 406, 406, 406, 406, 498],
         key_regr_str = ''desc-confounds_regressors.tsv'',
         key_tmpl_str = ''space-MNI152NLin2009cAsym_desc-preproc_bold''\<rparr>),
       (''figures'',
        \<lparr>key_segment_lengths =
           [410, 410, 410, 409, 408, 410, 410, 409, 410, 409, 409, 373],
         key_regr_str = ''run-1_desc-confounds_regressors.tsv'',
         key_tmpl_str = ''run-1_space-MNI152NLin2009cAsym_desc-preproc_bold''\<rparr>),
       (''life'',
        \<lparr>key_segment_lengths = [406, 406, 406, 406, 384],
         key_regr_str = ''run-1_desc-confounds_regressors.tsv'',
         key_tmpl_str = ''run-1_space-MNI152NLin2009cAsym_desc-preproc_bold''\<rparr>)])"
  by (simp add: create_data_dictionary_def pairs_of_two)

text \<open>
  Claim C5.  \<open>create_data_dictionary\<close> returns the task list bourne, wolf, figures, life
  and a dictionary whose keys are exactly these four; each task maps to its hard-coded
  list of segment lengths (10, 17, 12 and 5 entries); bourne and wolf carry the
  regressor and template strings without a run key-value, figures and life the
  \<^verbatim>\<open>run-1\<close> ones.
\<close>

theorem create_data_dictionary_contents:
  "fst create_data_dictionary = [''bourne'', ''wolf'', ''figures'', ''life'']
   \<and> map fst (snd create_data_dictionary) = fst create_data_dictionary
   \<and> distinct (map fst (snd create_data_dictionary))
   \<and> map (key_segment_lengths \<circ> snd) (snd create_data_dictionary) =
       [[403, 405, 405, 405, 405, 405, 405, 405, 405, 380],
        [406, 406, 406, 406, 406, 406, 406, 406, 406, 406,
         406, 406, 406, 406, 406, 406, 498],
        [410, 410, 410, 409, 408, 410, 410, 409, 410, 409, 409, 373],
        [406, 406, 406, 406, 384]]
   \<and> map (length \<circ> key_segment_lengths \<circ> snd) (snd create_data_dictionary) =
       [10, 17, 12, 5]
   \<and> map (key_regr_str \<circ> snd) (snd create_data_dictionary) =
       [''desc-confounds_regressors.tsv'', ''desc-confounds_regressors.tsv'',
        ''run-1_desc-confounds_regressors.tsv'', ''run-1_desc-confounds_regressors.tsv'']
   \<and> map (key_tmpl_str \<circ> snd) (snd create_data_dictionary) =
       [''space-MNI152NLin2009cAsym_desc-preproc_bold'',
        ''space-MNI152NLin2009cAsym_desc-preproc_bold'',
        ''run-1_space-MNI152NLin2009cAsym_desc-preproc_bold'',
        ''run-1_space-MNI152NLin2009cAsym_desc-preproc_bold'']"
  by (simp add: create_data_dictionary_value)

section \<open>Sequencing lemmas\<close>


lemma io_bind_return [simp]: "io_bind (io_return a) f = f a"
  by (simp add: io_bind_def io_return_def split: prod.splits)

lemma io_bind_raise [simp]: "io_bind (io_raise e) f = io_raise e"
  by (simp add: io_bind_def io_raise_def)

lemma io_bind_eq_Inr:
  "io_bind m f = (Inr b, es) \<longleftrightarrow>
     (\<exists>a es1 es2. m = (Inr a, es1) \<and> f a = (Inr b, es2) \<and> es = es1 @ es2)"
  by (cases m; cases "fst m") (auto simp: io_bind_def split: prod.splits)

lemma io_bind_fst_Inl:
  "fst (io_bind m f) = Inl e \<longleftrightarrow>
     fst m = Inl e \<or> (\<exists>a. fst m = Inr a \<and> fst (f a) = Inl e)"
  by (cases m; cases "fst m") (auto simp: io_bind_def split: prod.splits)

lemma io_lift_eq_Inr [simp]: "io_lift r = (Inr a, es) \<longleftrightarrow> r = Inr a \<and> es = []"
  by (auto simp: io_lift_def)

lemma io_return_eq [simp]: "io_return a = (Inr b, es) \<longleftrightarrow> a = b \<and> es = []"
  by (auto simp: io_return_def)

lemma io_raise_neq [simp]: "io_raise e \<noteq> (Inr b, es)"
  by (simp add: io_raise_def)

lemma io_emit_eq [simp]: "io_emit ev = (Inr u, es) \<longleftrightarrow> es = [ev]"
  by (auto simp: io_emit_def)

lemma read_global_eq [simp]: "read_global nm v = (Inr x, es) \<longleftrightarrow> v = Some x \<and> es = []"
  by (auto simp: read_global_def split: option.splits)

lemma fst_io_lift [simp]: "fst (io_lift r) = r" by (simp add: io_lift_def)
lemma fst_io_raise [simp]: "fst (io_raise e) = Inl e" by (simp add: io_raise_def)
lemma fst_io_return [simp]: "fst (io_return a) = Inr a" by (simp add: io_return_def)
lemma fst_io_emit [simp]: "fst (io_emit ev) = Inr ()" by (simp add: io_emit_def)

lemma field_indices_Inl: "field_indices fs nms = Inl e \<Longrightarrow> e \<noteq> AssertionError"
  by (induction nms arbitrary: e) (auto split: option.splits sum.splits)

lemma subset_confounds_not_assert:
  "fst (subset_confounds L r) \<noteq> Inl AssertionError"
  by (auto simp: subset_confounds_def io_bind_fst_Inl select_fields_def
     dest: field_indices_Inl split: option.splits sum.splits)

lemma load_confounds_not_assert:
  "fst (load_confounds L rs) \<noteq> Inl AssertionError"
  by (induction rs) (auto simp: io_bind_fst_Inl subset_confounds_not_assert)

lemma nifti_mask_movie_not_assert:
  "fst (nifti_mask_movie L m k c fwhm) \<noteq> Inl AssertionError"
  by (auto simp: nifti_mask_movie_def Let_def io_bind_fst_Inl split: option.splits)

lemma py_index_not_assert: "py_index xs n \<noteq> Inl AssertionError"
  by (simp add: py_index_def)

lemma slicer_time_not_assert: "slicer_time img k \<noteq> Inl AssertionError"
  by (simp add: slicer_time_def Let_def)

lemma read_global_not_assert: "fst (read_global nm v) \<noteq> Inl AssertionError"
  by (simp add: read_global_def split: option.splits)

lemma postproc_loop_not_assert:
  "fst (postproc_loop L g fwhm cs n ms acc) \<noteq> Inl AssertionError"
  by (induction ms arbitrary: n acc)
     (auto simp: io_bind_fst_Inl py_index_not_assert slicer_time_not_assert
        nifti_mask_movie_not_assert read_global_not_assert)

lemma concat_imgs_not_assert: "concat_imgs segs \<noteq> Inl AssertionError"
  by (simp add: concat_imgs_def)

lemma save_image_not_assert: "fst (save_image L movie nm) \<noteq> Inl AssertionError"
  by (simp add: save_image_def)

lemma snd_subset_confounds: "snd (subset_confounds L r) = [ReadConfounds r]"
  by (simp add: subset_confounds_def io_bind_def io_emit_def io_raise_def io_lift_def
      split: option.splits prod.splits)

lemma snd_nifti_mask_movie: "snd (nifti_mask_movie L m k c fwhm) = [Clean m]"
  by (simp add: nifti_mask_movie_def Let_def io_bind_def io_emit_def io_raise_def io_return_def
      split: option.splits prod.splits)

lemma load_confounds_Inr:
  "load_confounds L rs = (Inr cs, es) \<Longrightarrow>
     es = map ReadConfounds rs \<and> list_all2 (\<lambda>r c. fst (subset_confounds L r) = Inr c) rs cs"
proof (induction rs arbitrary: cs es)
  case Nil
  then show ?case by simp
next
  case (Cons r rs)
  from Cons.prems obtain c e1 cs' e2 where
    c: "subset_confounds L r = (Inr c, e1)" and
    rest: "load_confounds L rs = (Inr cs', e2)" and
    out: "cs = c # cs'" "es = e1 @ e2"
    by (auto simp: io_bind_eq_Inr)
  from c have "e1 = [ReadConfounds r]"
    using snd_subset_confounds [of L r] by simp
  with Cons.IH [OF rest] c out show ?case by simp
qed

lemma postproc_loop_Inr:
  assumes "postproc_loop L g fwhm cs n ms acc = (Inr out, es)"
  shows "es = map Clean ms \<and>
     (ms = [] \<and> out = acc \<or>
      (\<exists>sl imgs. var_seg_len g = Some sl \<and> length imgs = length ms
         \<and> length ms \<le> length cs - n \<and> length ms \<le> length sl - n
         \<and> list_all2 (\<lambda>(m, c) img.
               fst (nifti_mask_movie L m tpl_mask (structured_to_unstructured c) fwhm) = Inr img)
             (zip ms (drop n cs)) imgs
         \<and> out = acc @ map2 py_slice_to (drop n sl) imgs
         \<and> [] \<notin> set (map2 py_slice_to (drop n sl) imgs)))"
  using assms
proof (induction ms arbitrary: n acc out es)
  case Nil
  then show ?case by simp
next
  case (Cons m ms)
  from Cons.prems obtain c img e1 sl k cut e2 where
    c: "py_index cs n = Inr c" and
    img: "nifti_mask_movie L m tpl_mask (structured_to_unstructured c) fwhm = (Inr img, e1)" and
    sl: "var_seg_len g = Some sl" and
    k: "py_index sl n = Inr k" and
    cut: "slicer_time img k = Inr cut" and
    rest: "postproc_loop L g fwhm cs (Suc n) ms (acc @ [cut]) = (Inr out, e2)" and
    es: "es = e1 @ e2"
    by (auto simp: io_bind_eq_Inr)
  from c have n_cs: "n < length cs" and c_eq: "c = cs ! n"
    by (auto simp: py_index_def split: if_splits)
  from k have n_sl: "n < length sl" and k_eq: "k = sl ! n"
    by (auto simp: py_index_def split: if_splits)
  from cut have cut_eq: "cut = py_slice_to k img" and cut_ne: "cut \<noteq> []"
    by (auto simp: slicer_time_def Let_def split: if_splits)
  from img have e1: "e1 = [Clean m]"
    using snd_nifti_mask_movie [of L m tpl_mask "structured_to_unstructured c" fwhm] by simp
  have dcs: "drop n cs = c # drop (Suc n) cs"
    using n_cs c_eq by (simp add: Cons_nth_drop_Suc)
  have dsl: "drop n sl = k # drop (Suc n) sl"
    using n_sl k_eq by (simp add: Cons_nth_drop_Suc)
  from Cons.IH [OF rest] have e2: "e2 = map Clean ms" and
    alt: "ms = [] \<and> out = acc @ [cut] \<or>
      (\<exists>sl imgs. var_seg_len g = Some sl \<and> length imgs = length ms
         \<and> length ms \<le> length cs - Suc n \<and> length ms \<le> length sl - Suc n
         \<and> list_all2 (\<lambda>(m, c) img.
               fst (nifti_mask_movie L m tpl_mask (structured_to_unstructured c) fwhm) = Inr img)
             (zip ms (drop (Suc n) cs)) imgs
         \<and> out = (acc @ [cut]) @ map2 py_slice_to (drop (Suc n) sl) imgs
         \<and> [] \<notin> set (map2 py_slice_to (drop (Suc n) sl) imgs))"
    by blast+
  from alt obtain imgs where
    len: "length imgs = length ms" and
    b1: "length ms \<le> length cs - Suc n" and b2: "length ms \<le> length sl - Suc n" and
    all: "list_all2 (\<lambda>(m, c) img.
               fst (nifti_mask_movie L m tpl_mask (structured_to_unstructured c) fwhm) = Inr img)
             (zip ms (drop (Suc n) cs)) imgs" and
    out: "out = (acc @ [cut]) @ map2 py_slice_to (drop (Suc n) sl) imgs" and
    ne: "[] \<notin> set (map2 py_slice_to (drop (Suc n) sl) imgs)"
  proof (elim disjE conjE exE)
    assume "ms = []" "out = acc @ [cut]"
    then show ?thesis using that [of "[]"] by simp
  next
    fix sl' imgs
    assume "var_seg_len g = Some sl'" "length imgs = length ms"
      "length ms \<le> length cs - Suc n" "length ms \<le> length sl' - Suc n"
      "list_all2 (\<lambda>(m, c) img.
               fst (nifti_mask_movie L m tpl_mask (structured_to_unstructured c) fwhm) = Inr img)
             (zip ms (drop (Suc n) cs)) imgs"
      "out = (acc @ [cut]) @ map2 py_slice_to (drop (Suc n) sl') imgs"
      "[] \<notin> set (map2 py_slice_to (drop (Suc n) sl') imgs)"
    then show ?thesis using that [of imgs] sl by simp
  qed
  have b1': "length (m # ms) \<le> length cs - n" using b1 n_cs by simp
  have b2': "length (m # ms) \<le> length sl - n" using b2 n_sl by simp
  have "var_seg_len g = Some sl \<and> length (img # imgs) = length (m # ms)
         \<and> length (m # ms) \<le> length cs - n \<and> length (m # ms) \<le> length sl - n
         \<and> list_all2 (\<lambda>(m, c) img.
               fst (nifti_mask_movie L m tpl_mask (structured_to_unstructured c) fwhm) = Inr img)
             (zip (m # ms) (drop n cs)) (img # imgs)
         \<and> out = acc @ map2 py_slice_to (drop n sl) (img # imgs)
         \<and> [] \<notin> set (map2 py_slice_to (drop n sl) (img # imgs))"
    using sl len b1' b2' all out ne img cut_eq cut_ne
    by (simp add: dcs dsl)
  then have "\<exists>sl imgs'. var_seg_len g = Some sl \<and> length imgs' = length (m # ms)
         \<and> length (m # ms) \<le> length cs - n \<and> length (m # ms) \<le> length sl - n
         \<and> list_all2 (\<lambda>(m, c) img.
               fst (nifti_mask_movie L m tpl_mask (structured_to_unstructured c) fwhm) = Inr img)
             (zip (m # ms) (drop n cs)) imgs'
         \<and> out = acc @ map2 py_slice_to (drop n sl) imgs'
         \<and> [] \<notin> set (map2 py_slice_to (drop n sl) imgs')"
    by (intro exI [of _ sl] exI [of _ "img # imgs"])
  moreover have "es = map Clean (m # ms)"
    using es e1 e2 by simp
  ultimately show ?case
    by (intro conjI disjI2)
qed


lemma cleaned_segments_combine:
  assumes A: "list_all2 (\<lambda>r c. fst (subset_confounds L r) = Inr c) rs cs"
    and B: "list_all2 (\<lambda>(m, c) img.
               fst (nifti_mask_movie L m tpl_mask (structured_to_unstructured c) fwhm) = Inr img)
             (zip ms cs) imgs"
    and len: "length ms \<le> length cs"
  shows "list_all2 (\<lambda>(m, r) img. cleaned_segment L fwhm m r = Inr img) (zip ms rs) imgs"
proof -
  from A have lrs: "length rs = length cs"
    by (rule list_all2_lengthD)
  from B have limgs: "length imgs = length ms"
    using len by (auto dest: list_all2_lengthD)
  show ?thesis
  proof (rule list_all2_all_nthI)
    show "length (zip ms rs) = length imgs"
      using lrs limgs len by simp
  next
    fix i assume i: "i < length (zip ms rs)"
    then have ims: "i < length ms" and irs: "i < length rs" by simp_all
    from A irs have a: "fst (subset_confounds L (rs ! i)) = Inr (cs ! i)"
      by (simp add: list_all2_conv_all_nth)
    from B ims len have
      b: "fst (nifti_mask_movie L (ms ! i) tpl_mask (structured_to_unstructured (cs ! i)) fwhm)
            = Inr (imgs ! i)"
      by (auto simp: list_all2_conv_all_nth)
    from a b ims irs
    show "(case zip ms rs ! i of (m, r) \<Rightarrow> \<lambda>img. cleaned_segment L fwhm m r = Inr img) (imgs ! i)"
      by (simp add: cleaned_segment_def)
  qed
qed

lemma subset_and_process_Inr:
  assumes run: "subset_and_process_movie10 L g bold regs seglens n_segments fwhm = (Inr fname, es)"
  obtains n s t tmpl sl imgs where
    "n_segments = Some n" "n \<le> int (length bold)"
    "var_s g = Some s" "var_t g = Some t" "var_tmpl g = Some tmpl" "var_seg_len g = Some sl"
    "fname = postproc_fname s t tmpl fwhm"
    "length imgs = length (py_slice_to n bold)" "imgs \<noteq> []"
    "length imgs \<le> length (py_slice_to n regs)" "length imgs \<le> length sl"
    "list_all2 (\<lambda>(m, r) img. cleaned_segment L fwhm m r = Inr img)
       (zip (py_slice_to n bold) (py_slice_to n regs)) imgs"
    "[] \<notin> set (map2 py_slice_to sl imgs)"
    "nib_save L (concat (map2 py_slice_to sl imgs)) fname"
    "es = map ReadConfounds (py_slice_to n regs) @ map Clean (py_slice_to n bold)
            @ [Saved fname (concat (map2 py_slice_to sl imgs))]"
proof -
  from run obtain n where n: "n_segments = Some n"
    by (cases n_segments) (auto simp: subset_and_process_movie10_def)
  from run n have le: "n \<le> int (length bold)"
    by (auto simp: subset_and_process_movie10_def split: if_splits)
  let ?ms = "py_slice_to n bold" and ?rs = "py_slice_to n regs"
  from run n le obtain cs e1 segs e2 s t tmpl movie e3 where
    cs: "load_confounds L ?rs = (Inr cs, e1)" and
    loop: "postproc_loop L g fwhm cs 0 ?ms [] = (Inr segs, e2)" and
    s: "var_s g = Some s" and t: "var_t g = Some t" and tmpl: "var_tmpl g = Some tmpl" and
    movie: "concat_imgs segs = Inr movie" and
    save: "save_image L movie (postproc_fname s t tmpl fwhm) = (Inr (), e3)" and
    fname: "fname = postproc_fname s t tmpl fwhm" and
    es: "es = e1 @ e2 @ e3"
    by (auto simp: subset_and_process_movie10_def io_bind_eq_Inr)
  from movie have segs_ne: "segs \<noteq> []" and movie_eq: "movie = concat segs"
    by (auto simp: concat_imgs_def split: if_splits)
  from save have saved_ok: "nib_save L movie fname" and e3: "e3 = [Saved fname movie]"
    by (auto simp: save_image_def fname split: if_splits)
  from load_confounds_Inr [OF cs] have e1: "e1 = map ReadConfounds ?rs"
    and A: "list_all2 (\<lambda>r c. fst (subset_confounds L r) = Inr c) ?rs cs"
    by simp_all
  from postproc_loop_Inr [OF loop] segs_ne obtain sl imgs where
    e2: "e2 = map Clean ?ms" and
    sl: "var_seg_len g = Some sl" and
    len: "length imgs = length ?ms" and
    b1: "length ?ms \<le> length cs" and b2: "length ?ms \<le> length sl" and
    B: "list_all2 (\<lambda>(m, c) img.
               fst (nifti_mask_movie L m tpl_mask (structured_to_unstructured c) fwhm) = Inr img)
             (zip ?ms cs) imgs" and
    segs: "segs = map2 py_slice_to sl imgs" and
    ne: "[] \<notin> set (map2 py_slice_to sl imgs)"
    by auto
  from A have lrs: "length ?rs = length cs"
    by (rule list_all2_lengthD)
  have imgs_ne: "imgs \<noteq> []"
    using segs segs_ne by auto
  show thesis
  proof (rule that [of n s t tmpl sl imgs])
    show "list_all2 (\<lambda>(m, r) img. cleaned_segment L fwhm m r = Inr img) (zip ?ms ?rs) imgs"
      by (rule cleaned_segments_combine [OF A B b1])
    show "length imgs \<le> length ?rs"
      using len lrs b1 by simp
    show "es = map ReadConfounds ?rs @ map Clean ?ms
            @ [Saved fname (concat (map2 py_slice_to sl imgs))]"
      using es e1 e2 e3 movie_eq segs by simp
    show "nib_save L (concat (map2 py_slice_to sl imgs)) fname"
      using saved_ok movie_eq segs by simp
  qed (use n le s t tmpl sl fname len imgs_ne b2 ne in simp_all)
qed

section \<open>The assembler without a segment count\<close>

text \<open>
  Claim C9.  Called with \<^verbatim>\<open>n_segments=None\<close>, \<open>subset_and_process_movie10\<close> raises
  the unbound-variable error of \<^verbatim>\<open>regressor_segments\<close> and has done nothing before
  it: no confound file is read, no segment is cleaned, no file is written.  This holds
  for every input, so the whole movie cannot be processed without a segment count.
\<close>

theorem none_unbound:
  "subset_and_process_movie10 L g bold_files regressors segment_lengths None fwhm =
     (Inl (UnboundLocalError ''regressor_segments''), [])"
  by (simp add: subset_and_process_movie10_def io_raise_def)

section \<open>The assertion on the segment count\<close>

text \<open>
  Claim C10.  With a segment count larger than the number of BOLD files the call raises
  \<^verbatim>\<open>AssertionError\<close> with no effect before it (no confound file read, no segment
  cleaned, no file written); with a count of at most the number of BOLD files the call
  never ends in \<^verbatim>\<open>AssertionError\<close>.
\<close>

theorem assertion_guard:
  "(int (length bold_files) < n \<longrightarrow>
      subset_and_process_movie10 L g bold_files regressors segment_lengths (Some n) fwhm =
        (Inl AssertionError, []))
   \<and> (n \<le> int (length bold_files) \<longrightarrow>
      fst (subset_and_process_movie10 L g bold_files regressors segment_lengths (Some n) fwhm)
        \<noteq> Inl AssertionError)"
  by (auto simp: subset_and_process_movie10_def io_raise_def io_bind_fst_Inl
       load_confounds_not_assert postproc_loop_not_assert read_global_not_assert
       concat_imgs_not_assert save_image_not_assert)

theorem assertion_guard_witness:
  "subset_and_process_movie10 demo_lib (demo_globals [2, 3]) [''b1'', ''b2''] [''r1'', ''r2'']
      [2, 3] (Some 3) (Some 6) = (Inl AssertionError, [])
   \<and> fst (subset_and_process_movie10 demo_lib (demo_globals [2, 3]) [''b1'', ''b2'']
      [''r1'', ''r2''] [2, 3] (Some 2) (Some 6)) \<noteq> Inl AssertionError"
  using assertion_guard [where bold_files = "[''b1'', ''b2'']" and n = 3 and L = demo_lib
      and g = "demo_globals [2, 3]" and regressors = "[''r1'', ''r2'']"
      and segment_lengths = "[2, 3]" and fwhm = "Some 6"]
    assertion_guard [where bold_files = "[''b1'', ''b2'']" and n = 2 and L = demo_lib
      and g = "demo_globals [2, 3]" and regressors = "[''r1'', ''r2'']"
      and segment_lengths = "[2, 3]" and fwhm = "Some 6"]
  by simp

section \<open>What a successful call of the assembler has done\<close>


lemma saved_append: "saved (xs @ ys) = saved xs @ saved ys"
  by (induction xs rule: saved.induct) simp_all

lemma saved_ReadConfounds: "saved (map ReadConfounds rs) = []"
  by (induction rs) simp_all

lemma saved_Clean: "saved (map Clean ms) = []"
  by (induction ms) simp_all

lemma demo_run:
  "subset_and_process_movie10 demo_lib (demo_globals [2, 3]) [''b1'', ''b2''] [''r1'', ''r2'']
      [2, 3] (Some 2) (Some 6)
   = (Inr ''sub-01/sub-01_task-bourne_space-MNI152NLin2009cAsym_desc-fwhm6_bold.nii.gz'',
      [ReadConfounds ''r1'', ReadConfounds ''r2'', Clean ''b1'', Clean ''b2'',
       Saved ''sub-01/sub-01_task-bourne_space-MNI152NLin2009cAsym_desc-fwhm6_bold.nii.gz''
         [43, 123, 43, 123, 203]])"
  by code_simp

text \<open>A slice up to a non-negative \<open>k\<close> keeps \<open>k\<close> frames, or all when there are fewer.\<close>

lemma py_slice_to_length:
  "0 \<le> k \<Longrightarrow> length (py_slice_to k xs) = min (nat k) (length xs)"
  by (simp add: py_slice_to_def)

lemma length_concat_map2:
  "length (concat (map2 f ks imgs)) = sum_list (map2 (\<lambda>k img. length (f k img)) ks imgs)"
  by (simp add: length_concat o_def split_def)

lemma sum_exact:
  "list_all2 (\<lambda>k img. 0 \<le> k \<and> k \<le> int (length img)) ks imgs \<Longrightarrow>
     int (sum_list (map2 (\<lambda>k img. length (py_slice_to k img)) ks imgs)) = sum_list ks"
  by (induction ks imgs rule: list_all2_induct) (auto simp: py_slice_to_def min_def)

lemma zip_take_length: "zip (take (length ys) xs) ys = zip xs ys"
proof -
  have "zip (take (length ys) xs) ys = zip (take (length ys) xs) (take (length ys) ys)"
    by simp
  also have "\<dots> = take (length ys) (zip xs ys)"
    by (simp only: take_zip)
  also have "\<dots> = zip xs ys"
    by simp
  finally show ?thesis .
qed

lemma py_slice_to_nonneg: "0 \<le> n \<Longrightarrow> py_slice_to n xs = take (nat n) xs"
  by (simp add: py_slice_to_def)

lemma demo_cleaned: "cleaned_segment demo_lib (Some 6) m r = Inr [43, 123, 203]"
  by (simp add: cleaned_segment_def subset_confounds_def nifti_mask_movie_def demo_lib_def
      demo_table_def select_fields_def keep_confounds_def structured_to_unstructured_def
      io_bind_def io_emit_def io_lift_def io_return_def)

lemma demo_short_run:
  "subset_and_process_movie10 demo_lib (demo_globals [5]) [''b1''] [''r1''] [5] (Some 1) (Some 6)
   = (Inr ''sub-01/sub-01_task-bourne_space-MNI152NLin2009cAsym_desc-fwhm6_bold.nii.gz'',
      [ReadConfounds ''r1'', Clean ''b1'',
       Saved ''sub-01/sub-01_task-bourne_space-MNI152NLin2009cAsym_desc-fwhm6_bold.nii.gz''
         [43, 123, 203]])"
  by code_simp

section \<open>The output file\<close>



section \<open>Truncation and concatenation\<close>

text \<open>
  Claim C1, as amended.  Take a call of \<open>subset_and_process_movie10\<close> that completes,
  with \<open>0 \<le> n_segments \<le> len(bold_files)\<close> and with the module-level \<^verbatim>\<open>seg_len\<close>
  bound to the list passed as \<open>segment_lengths\<close>, as the main program calls it.  Then
  the first \<open>n_segments\<close> BOLD files are cleaned, each with the confounds of the
  regressor file at its position; segment \<open>n\<close> is cut to \<^verbatim>\<open>[..., :segment_lengths[n]]\<close>
  as Python slices (so a segment with fewer frames keeps the frames it has); the file
  written holds the cut segments one after the other.  When every \<open>segment_lengths[n]\<close>
  is between zero and the number of frames of cleaned segment \<open>n\<close>, the output has
  exactly the sum of \<open>segment_lengths[n]\<close> over \<open>n < n_segments\<close> frames.
\<close>

theorem truncation_frames:
  assumes run: "subset_and_process_movie10 L g bold_files regressors segment_lengths (Some n) fwhm
                  = (Inr fname, es)"
    and glob: "var_seg_len g = Some segment_lengths"
    and n0: "0 \<le> n"
  shows "\<exists>imgs movie.
           length imgs = nat n \<and> nat n \<le> length bold_files \<and> nat n \<le> length regressors
         \<and> nat n \<le> length segment_lengths
         \<and> list_all2 (\<lambda>(m, r) img. cleaned_segment L fwhm m r = Inr img)
              (zip (take (nat n) bold_files) (take (nat n) regressors)) imgs
         \<and> movie = concat (map2 py_slice_to (take (nat n) segment_lengths) imgs)
         \<and> saved es = [(fname, movie)]
         \<and> length movie =
             sum_list (map2 (\<lambda>k img. length (py_slice_to k img))
                         (take (nat n) segment_lengths) imgs)
         \<and> (list_all2 (\<lambda>k img. 0 \<le> k \<and> k \<le> int (length img))
               (take (nat n) segment_lengths) imgs
              \<longrightarrow> int (length movie) = sum_list (take (nat n) segment_lengths))"
proof -
  from run obtain n' sl imgs where
    n': "Some n = Some n'" and le: "n' \<le> int (length bold_files)" and
    sl: "var_seg_len g = Some sl" and
    len: "length imgs = length (py_slice_to n' bold_files)" and
    lr: "length imgs \<le> length (py_slice_to n' regressors)" and
    lsl: "length imgs \<le> length sl" and
    all: "list_all2 (\<lambda>(m, r) img. cleaned_segment L fwhm m r = Inr img)
            (zip (py_slice_to n' bold_files) (py_slice_to n' regressors)) imgs" and
    es: "es = map ReadConfounds (py_slice_to n' regressors) @ map Clean (py_slice_to n' bold_files)
            @ [Saved fname (concat (map2 py_slice_to sl imgs))]"
    by (rule subset_and_process_Inr)
  from n' have [simp]: "n' = n" by simp
  from sl glob have [simp]: "sl = segment_lengths" by simp
  let ?k = "nat n"
  let ?movie = "concat (map2 py_slice_to (take ?k segment_lengths) imgs)"
  have l1: "length imgs = ?k"
    using len le n0 by (simp add: py_slice_to_nonneg)
  have l2: "?k \<le> length bold_files" using le n0 by simp
  have l3: "?k \<le> length regressors"
    using lr l1 n0 by (simp add: py_slice_to_nonneg)
  have l4: "?k \<le> length segment_lengths" using lsl l1 by simp
  have zip_eq: "zip (take ?k segment_lengths) imgs = zip segment_lengths imgs"
    using zip_take_length [of imgs segment_lengths] l1 by simp
  have saved_es: "saved es = [(fname, ?movie)]"
    using es by (simp add: saved_append saved_ReadConfounds saved_Clean zip_eq)
  have count: "length ?movie =
      sum_list (map2 (\<lambda>k img. length (py_slice_to k img)) (take ?k segment_lengths) imgs)"
    by (rule length_concat_map2)
  have exact: "list_all2 (\<lambda>k img. 0 \<le> k \<and> k \<le> int (length img)) (take ?k segment_lengths) imgs
      \<longrightarrow> int (length ?movie) = sum_list (take ?k segment_lengths)"
    using sum_exact [of "take ?k segment_lengths" imgs] count by simp
  have all': "list_all2 (\<lambda>(m, r) img. cleaned_segment L fwhm m r = Inr img)
              (zip (take ?k bold_files) (take ?k regressors)) imgs"
    using all n0 by (simp add: py_slice_to_nonneg)
  show ?thesis
    using l1 l2 l3 l4 all' saved_es count exact
    by (intro exI [of _ imgs] exI [of _ ?movie]) simp
qed

theorem truncation_frames_witness:
  "subset_and_process_movie10 demo_lib (demo_globals [2, 3]) [''b1'', ''b2''] [''r1'', ''r2'']
      [2, 3] (Some 2) (Some 6)
   = (Inr ''sub-01/sub-01_task-bourne_space-MNI152NLin2009cAsym_desc-fwhm6_bold.nii.gz'',
      [ReadConfounds ''r1'', ReadConfounds ''r2'', Clean ''b1'', Clean ''b2'',
       Saved ''sub-01/sub-01_task-bourne_space-MNI152NLin2009cAsym_desc-fwhm6_bold.nii.gz''
         [43, 123, 43, 123, 203]])
   \<and> var_seg_len (demo_globals [2, 3]) = Some [2, 3]
   \<and> (\<exists>imgs movie.
         list_all2 (\<lambda>(m, r) img. cleaned_segment demo_lib (Some 6) m r = Inr img)
           (zip [''b1'', ''b2''] [''r1'', ''r2'']) imgs
       \<and> list_all2 (\<lambda>k img. 0 \<le> k \<and> k \<le> int (length img)) [2, 3] imgs
       \<and> movie = concat (map2 py_slice_to [2, 3] imgs)
       \<and> int (length movie) = 2 + 3)"
proof -
  have g: "var_seg_len (demo_globals [2, 3]) = Some [2, 3]"
    by (simp add: demo_globals_def)
  from truncation_frames [OF demo_run g] obtain imgs movie where
    len: "length imgs = nat 2" and
    all: "list_all2 (\<lambda>(m, r) img. cleaned_segment demo_lib (Some 6) m r = Inr img)
            (zip (take (nat 2) [''b1'', ''b2'']) (take (nat 2) [''r1'', ''r2''])) imgs" and
    movie: "movie = concat (map2 py_slice_to (take (nat 2) [2, 3]) imgs)" and
    exact: "list_all2 (\<lambda>k img. 0 \<le> k \<and> k \<le> int (length img)) (take (nat 2) [2, 3]) imgs
              \<longrightarrow> int (length movie) = sum_list (take (nat 2) [2, 3])"
    by auto
  from all have all': "list_all2 (\<lambda>(m, r) img. cleaned_segment demo_lib (Some 6) m r = Inr img)
            (zip [''b1'', ''b2''] [''r1'', ''r2'']) imgs"
    by simp
  then have imgs: "imgs = [[43, 123, 203], [43, 123, 203]]"
    by (auto simp: list_all2_Cons1 demo_cleaned)
  have fits: "list_all2 (\<lambda>k img. 0 \<le> k \<and> k \<le> int (length img)) [2, 3] imgs"
    by (simp add: imgs)
  with exact have "int (length movie) = 2 + 3"
    by simp
  with all' fits movie g demo_run show ?thesis
    by (intro conjI exI [of _ imgs] exI [of _ movie]) simp_all
qed

text \<open>
  Claim C1 as stated fails where a cleaned segment is shorter than its entry of
  \<open>segment_lengths\<close>: one segment of three frames, cut to \<^verbatim>\<open>[..., :5]\<close>, gives an
  output of three frames, not five.
\<close>

theorem truncation_frames_counterexample:
  "subset_and_process_movie10 demo_lib (demo_globals [5]) [''b1''] [''r1''] [5] (Some 1) (Some 6)
   = (Inr ''sub-01/sub-01_task-bourne_space-MNI152NLin2009cAsym_desc-fwhm6_bold.nii.gz'',
      [ReadConfounds ''r1'', Clean ''b1'',
       Saved ''sub-01/sub-01_task-bourne_space-MNI152NLin2009cAsym_desc-fwhm6_bold.nii.gz''
         [43, 123, 203]])
   \<and> var_seg_len (demo_globals [5]) = Some [5]
   \<and> cleaned_segment demo_lib (Some 6) ''b1'' ''r1'' = Inr [43, 123, 203]
   \<and> (1::int) \<le> int (length [''b1''])
   \<and> int (length [43, 123, 203 :: nat]) \<noteq> sum_list (take 1 [5])"
  using demo_short_run by (simp add: demo_globals_def demo_cleaned)

section \<open>The selected confounds\<close>

lemma field_index_Some:
  "nm \<in> set fs \<Longrightarrow> \<exists>i. field_index fs nm = Some i \<and> i < length fs \<and> fs ! i = nm"
  by (induction fs) auto

lemma field_indices_Inr:
  "set nms \<subseteq> set fs \<Longrightarrow>
     \<exists>ixs. field_indices fs nms = Inr ixs \<and> list_all2 (\<lambda>nm i. i < length fs \<and> fs ! i = nm) nms ixs"
proof (induction nms)
  case Nil
  then show ?case by simp
next
  case (Cons nm nms)
  then obtain i ixs where "field_index fs nm = Some i" "i < length fs" "fs ! i = nm"
    "field_indices fs nms = Inr ixs" "list_all2 (\<lambda>nm i. i < length fs \<and> fs ! i = nm) nms ixs"
    using field_index_Some [of nm fs] by auto
  then show ?case by simp
qed

lemma select_fields_cells:
  assumes wf: "wf_recarray a" and sub: "set nms \<subseteq> set (field_names a)" and d: "distinct nms"
  shows "\<exists>out. select_fields a nms = Inr out \<and> field_names out = nms
           \<and> length (recs out) = length (recs a) \<and> wf_recarray out
           \<and> (\<forall>i nm. i < length (recs a) \<and> nm \<in> set nms \<longrightarrow>
                 cell out i nm = cell a i nm \<and> cell a i nm \<noteq> None)"
proof -
  let ?fs = "field_names a"
  from field_indices_Inr [OF sub] obtain ixs where
    ixs: "field_indices ?fs nms = Inr ixs" and
    all: "list_all2 (\<lambda>nm i. i < length ?fs \<and> ?fs ! i = nm) nms ixs"
    by blast
  let ?out = "\<lparr>field_names = nms, recs = map (\<lambda>r. map (\<lambda>i. r ! i) ixs) (recs a)\<rparr>"
  from all have len: "length ixs = length nms"
    by (simp add: list_all2_lengthD)
  have sel: "select_fields a nms = Inr ?out"
    by (simp add: select_fields_def ixs)
  have wf_out: "wf_recarray ?out"
    using d len by (simp add: wf_recarray_def list_all_iff)
  have cells: "cell ?out i nm = cell a i nm \<and> cell a i nm \<noteq> None"
    if i: "i < length (recs a)" and nm: "nm \<in> set nms" for i nm
  proof -
    let ?r = "recs a ! i"
    from wf i have lr: "length ?r = length ?fs" and dfs: "distinct ?fs"
      by (auto simp: wf_recarray_def list_all_iff)
    from nm obtain j where j: "j < length nms" "nms ! j = nm"
      by (auto simp: in_set_conv_nth)
    with all have k: "ixs ! j < length ?fs" "?fs ! (ixs ! j) = nm"
      by (auto simp: list_all2_conv_all_nth)
    have "map_of (zip nms (map (\<lambda>k. ?r ! k) ixs)) (nms ! j) = Some (map (\<lambda>k. ?r ! k) ixs ! j)"
      using d len j by (intro map_of_zip_nth) simp_all
    then have out: "cell ?out i nm = Some (?r ! (ixs ! j))"
      using i j len by (simp add: cell_def)
    have "map_of (zip ?fs ?r) (?fs ! (ixs ! j)) = Some (?r ! (ixs ! j))"
      using dfs lr k by (intro map_of_zip_nth) simp_all
    then have "cell a i nm = Some (?r ! (ixs ! j))"
      using i k by (simp add: cell_def)
    with out show ?thesis by simp
  qed
  show ?thesis
    using sel wf_out cells by (intro exI [of _ ?out]) simp
qed

lemma distinct_keep_confounds: "distinct keep_confounds"
  by (simp add: keep_confounds_def)

text \<open>
  Claim C3.  When the confound file loads as a table (rows of one value per column,
  column names distinct) that has the columns \<^verbatim>\<open>trans_x\<close>, \<^verbatim>\<open>trans_y\<close>,
  \<^verbatim>\<open>trans_z\<close>, \<^verbatim>\<open>rot_x\<close>, \<^verbatim>\<open>rot_y\<close>, \<^verbatim>\<open>rot_z\<close>, \<^verbatim>\<open>csf\<close> and
  \<^verbatim>\<open>white_matter\<close>, \<open>subset_confounds\<close> returns a table of exactly these eight
  columns, in this order, with as many rows as the input, and every value of a retained
  column is the value the input has in that row and column.
\<close>

theorem subset_confounds_selects:
  assumes "recfromcsv L tsv = Some a" and "wf_recarray a"
    and "set keep_confounds \<subseteq> set (field_names a)"
  shows "\<exists>out. subset_confounds L tsv = (Inr out, [ReadConfounds tsv])
           \<and> field_names out = [''trans_x'', ''trans_y'', ''trans_z'',
                                  ''rot_x'', ''rot_y'', ''rot_z'', ''csf'', ''white_matter'']
           \<and> length (recs out) = length (recs a)
           \<and> wf_recarray out
           \<and> (\<forall>i nm. i < length (recs a) \<and> nm \<in> set keep_confounds \<longrightarrow>
                 cell out i nm = cell a i nm \<and> cell a i nm \<noteq> None)"
proof -
  from select_fields_cells [OF assms(2,3) distinct_keep_confounds] obtain out where
    "select_fields a keep_confounds = Inr out" "field_names out = keep_confounds"
    "length (recs out) = length (recs a)" "wf_recarray out"
    "\<forall>i nm. i < length (recs a) \<and> nm \<in> set keep_confounds \<longrightarrow>
        cell out i nm = cell a i nm \<and> cell a i nm \<noteq> None"
    by blast
  moreover from this assms(1) have "subset_confounds L tsv = (Inr out, [ReadConfounds tsv])"
    by (simp add: subset_confounds_def io_bind_def io_emit_def io_lift_def)
  ultimately show ?thesis
    by (intro exI [of _ out]) (simp add: keep_confounds_def)
qed

theorem subset_confounds_selects_witness:
  "recfromcsv demo_lib ''sub-01_confounds.tsv'' = Some demo_table
   \<and> wf_recarray demo_table
   \<and> set keep_confounds \<subseteq> set (field_names demo_table)
   \<and> subset_confounds demo_lib ''sub-01_confounds.tsv'' =
       (Inr \<lparr>field_names = [''trans_x'', ''trans_y'', ''trans_z'',
                            ''rot_x'', ''rot_y'', ''rot_z'', ''csf'', ''white_matter''],
             recs = [[4, 5, 6, 7, 8, 9, 1, 3], [14, 15, 16, 17, 18, 19, 11, 13],
                     [24, 25, 26, 27, 28, 29, 21, 23]]\<rparr>,
        [ReadConfounds ''sub-01_confounds.tsv''])
   \<and> cell demo_table 1 ''csf'' = Some 11
   \<and> cell \<lparr>field_names = [''trans_x'', ''trans_y'', ''trans_z'',
                            ''rot_x'', ''rot_y'', ''rot_z'', ''csf'', ''white_matter''],
             recs = [[4, 5, 6, 7, 8, 9, 1, 3], [14, 15, 16, 17, 18, 19, 11, 13],
                     [24, 25, 26, 27, 28, 29, 21, 23 :: nat]]\<rparr> 1 ''csf'' = Some 11"
proof -
  have h1: "recfromcsv demo_lib ''sub-01_confounds.tsv'' = Some demo_table"
    by (simp add: demo_lib_def)
  have h2: "wf_recarray demo_table"
    by (simp add: wf_recarray_def demo_table_def)
  have h3: "set keep_confounds \<subseteq> set (field_names demo_table)"
    by (simp add: keep_confounds_def demo_table_def)
  have run: "subset_confounds demo_lib ''sub-01_confounds.tsv'' =
       (Inr \<lparr>field_names = [''trans_x'', ''trans_y'', ''trans_z'',
                            ''rot_x'', ''rot_y'', ''rot_z'', ''csf'', ''white_matter''],
             recs = [[4, 5, 6, 7, 8, 9, 1, 3], [14, 15, 16, 17, 18, 19, 11, 13],
                     [24, 25, 26, 27, 28, 29, 21, 23]]\<rparr>,
        [ReadConfounds ''sub-01_confounds.tsv''])"
    by code_simp
  from subset_confounds_selects [OF h1 h2 h3] obtain out where
    out: "subset_confounds demo_lib ''sub-01_confounds.tsv''
            = (Inr out, [ReadConfounds ''sub-01_confounds.tsv''])" and
    cells: "\<forall>i nm. i < length (recs demo_table) \<and> nm \<in> set keep_confounds \<longrightarrow>
        cell out i nm = cell demo_table i nm \<and> cell demo_table i nm \<noteq> None"
    by blast
  have c: "cell demo_table 1 ''csf'' = Some 11"
    by (simp add: cell_def demo_table_def)
  have "1 < length (recs demo_table) \<and> ''csf'' \<in> set keep_confounds"
    by (simp add: demo_table_def keep_confounds_def)
  with cells have "cell out 1 ''csf'' = cell demo_table 1 ''csf''"
    by blast
  with out run c h1 h2 h3 show ?thesis
    by simp
qed

section \<open>Searching and sorting: lemmas\<close>

lemma task_atoms_literal: "literal_task task \<Longrightarrow> task_atoms task = Some (map Lit task)"
  by (induction task) (auto simp: literal_task_def re_special_def)

lemma segment_pattern_literal:
  "literal_task task \<Longrightarrow> segment_pattern task = Some (literal_pattern task)"
  by (simp add: segment_pattern_def task_atoms_literal literal_pattern_def)

lemma match_atoms_Lit: "match_atoms (map Lit s) x = Some rest \<longleftrightarrow> x = s @ rest"
proof (induction s arbitrary: x)
  case Nil
  then show ?case by auto
next
  case (Cons a s)
  then show ?case by (cases x) auto
qed

lemma takeWhile_nonempty: "takeWhile P xs \<noteq> [] \<longleftrightarrow> (\<exists>d post. xs = d # post \<and> P d)"
  by (cases xs) auto

lemma match_here_Lit:
  "match_here (map Lit s) x \<noteq> None \<longleftrightarrow> (\<exists>d post. x = s @ d # post \<and> is_digit d)"
proof (cases "match_atoms (map Lit s) x")
  case None
  then have "\<And>rest. x \<noteq> s @ rest"
    using match_atoms_Lit [of s x] by auto
  with None show ?thesis
    by (auto simp: match_here_def)
next
  case (Some rest)
  then have "x = s @ rest" by (simp add: match_atoms_Lit)
  with Some show ?thesis
    by (auto simp: match_here_def Let_def takeWhile_nonempty)
qed

lemma re_search_Lit:
  "re_search (map Lit s) x \<noteq> None \<longleftrightarrow> (\<exists>pre d post. x = pre @ s @ d # post \<and> is_digit d)"
proof (induction x)
  case Nil
  have "match_here (map Lit s) [] = None"
    using match_here_Lit [of s "[]"] by auto
  then show ?case by simp
next
  case (Cons c cs)
  let ?here = "\<exists>d post. c # cs = s @ d # post \<and> is_digit d"
  let ?later = "\<exists>pre d post. cs = pre @ s @ d # post \<and> is_digit d"
  have split: "(\<exists>pre d post. c # cs = pre @ s @ d # post \<and> is_digit d) \<longleftrightarrow> ?here \<or> ?later"
  proof
    assume "\<exists>pre d post. c # cs = pre @ s @ d # post \<and> is_digit d"
    then obtain pre d post where eq: "c # cs = pre @ s @ d # post" and d: "is_digit d"
      by blast
    show "?here \<or> ?later"
    proof (cases pre)
      case Nil
      with eq d show ?thesis by auto
    next
      case (Cons a pre')
      with eq d have "cs = pre' @ s @ d # post" by simp
      with d show ?thesis by blast
    qed
  next
    assume "?here \<or> ?later"
    then show "\<exists>pre d post. c # cs = pre @ s @ d # post \<and> is_digit d"
    proof
      assume ?here
      then obtain d post where "c # cs = [] @ s @ d # post" "is_digit d" by auto
      then show ?thesis by blast
    next
      assume ?later
      then obtain pre d post where "c # cs = (c # pre) @ s @ d # post" "is_digit d" by auto
      then show ?thesis by blast
    qed
  qed
  have "re_search (map Lit s) (c # cs) \<noteq> None \<longleftrightarrow>
          match_here (map Lit s) (c # cs) \<noteq> None \<or> re_search (map Lit s) cs \<noteq> None"
    by (auto split: option.splits)
  with Cons.IH match_here_Lit [of s "c # cs"] split show ?case
    by simp
qed

lemma contains_task_index_iff:
  "contains_task_index task x \<longleftrightarrow> embedded_index task x \<noteq> None"
  using re_search_Lit [of "''task-'' @ task" x]
  by (simp add: contains_task_index_def embedded_index_def literal_pattern_def)

lemma decorate_all:
  "list_all (\<lambda>x. f x = Inr (g x)) xs \<Longrightarrow> decorate f xs = Inr (map (\<lambda>x. (g x, x)) xs)"
  by (induction xs) simp_all

lemma decorate_fails:
  assumes "\<And>x e. f x = Inl e \<Longrightarrow> e = E" and "x \<in> set xs" and "f x = Inl E"
  shows "decorate f xs = Inl E"
  using assms(2,3)
proof (induction xs)
  case Nil
  then show ?case by simp
next
  case (Cons y ys)
  show ?case
  proof (cases "f y")
    case (Inl e)
    with assms(1) show ?thesis by auto
  next
    case (Inr k)
    with Cons have "x \<in> set ys" by auto
    with Cons Inr show ?thesis by simp
  qed
qed

lemma sort_key_decorated_aux:
  "sort_key fst (map (\<lambda>x. (g x, x)) xs) = map (\<lambda>x. (g x, x)) (sort_key g xs)"
proof (induction xs)
  case Nil
  then show ?case by simp
next
  case (Cons x xs)
  have "insort_key fst (g x, x) (map (\<lambda>y. (g y, y)) ys) = map (\<lambda>y. (g y, y)) (insort_key g x ys)"
    for ys
    by (induction ys) simp_all
  with Cons show ?case by simp
qed

lemma sort_key_decorated:
  "map snd (sort_key fst (map (\<lambda>x. (g x, x)) xs)) = sort_key g xs"
  by (simp add: sort_key_decorated_aux o_def)

lemma py_sorted_all:
  "list_all (\<lambda>x. f x = Inr (g x)) xs \<Longrightarrow> py_sorted f xs = Inr (sort_key g xs)"
  by (simp add: py_sorted_def decorate_all sort_key_decorated)


lemma segment_key_literal:
  "segment_key (literal_pattern task) x =
     (case embedded_index task x of None \<Rightarrow> Inl AttributeError | Some k \<Rightarrow> Inr k)"
  by (simp add: segment_key_def embedded_index_def split: option.splits)

text \<open>
  The embedded index read from the file name itself: when the name is \<open>pre\<close>, then
  \<^verbatim>\<open>task-\<close> and the task, then the digits \<open>ds\<close>, then a rest that does not go on
  with a digit, and no occurrence followed by a digit starts before \<open>pre\<close> ends, the
  index is the decimal number \<open>ds\<close> writes.
\<close>

lemma py_int_snoc: "py_int (ds @ [d]) = 10 * py_int ds + digit_value d"
  by (simp add: py_int_def)

lemma re_search_here: "match_here p x = Some ds \<Longrightarrow> re_search p x = Some ds"
  by (cases x) simp_all

lemma takeWhile_digits:
  "list_all is_digit ds \<Longrightarrow> post = [] \<or> \<not> is_digit (hd post) \<Longrightarrow>
     takeWhile is_digit (ds @ post) = ds"
  by (cases post) (auto simp: list_all_iff)

lemma re_search_first:
  assumes "x = pre @ s @ ds @ post" and "ds \<noteq> []" and "list_all is_digit ds"
    and "post = [] \<or> \<not> is_digit (hd post)"
    and "\<And>pre' d post'. x = pre' @ s @ d # post' \<Longrightarrow> is_digit d \<Longrightarrow> length pre \<le> length pre'"
  shows "re_search (map Lit s) x = Some ds"
  using assms
proof (induction pre arbitrary: x)
  case Nil
  then have "match_atoms (map Lit s) x = Some (ds @ post)"
    by (simp add: match_atoms_Lit)
  with Nil have "match_here (map Lit s) x = Some ds"
    by (simp add: match_here_def Let_def takeWhile_digits)
  then show ?case by (rule re_search_here)
next
  case (Cons c pre)
  let ?x' = "pre @ s @ ds @ post"
  have x: "x = c # ?x'" using Cons.prems(1) by simp
  have "match_here (map Lit s) x = None"
  proof (rule ccontr)
    assume "match_here (map Lit s) x \<noteq> None"
    then obtain d post' where "x = [] @ s @ d # post'" "is_digit d"
      using match_here_Lit [of s x] by auto
    from Cons.prems(5) [OF this] show False by simp
  qed
  then have step: "re_search (map Lit s) x = re_search (map Lit s) ?x'"
    by (simp add: x)
  have "re_search (map Lit s) ?x' = Some ds"
  proof (rule Cons.IH [OF refl Cons.prems(2,3,4)])
    fix pre' d post'
    assume "?x' = pre' @ s @ d # post'" and d: "is_digit d"
    then have "x = (c # pre') @ s @ d # post'" by (simp add: x)
    from Cons.prems(5) [OF this d] show "length pre \<le> length pre'" by simp
  qed
  with step show ?case by simp
qed

lemma embedded_index_first:
  assumes "x = pre @ ''task-'' @ task @ ds @ post" and "ds \<noteq> []" and "list_all is_digit ds"
    and "post = [] \<or> \<not> is_digit (hd post)"
    and "\<And>pre' d post'. x = pre' @ ''task-'' @ task @ d # post' \<Longrightarrow> is_digit d
           \<Longrightarrow> length pre \<le> length pre'"
  shows "embedded_index task x = Some (py_int ds)"
proof -
  have "re_search (map Lit (''task-'' @ task)) x = Some ds"
  proof (rule re_search_first [where pre = pre and post = post])
    show "x = pre @ (''task-'' @ task) @ ds @ post"
      using assms(1) by simp
    show "ds \<noteq> []" "list_all is_digit ds" "post = [] \<or> \<not> is_digit (hd post)"
      by (fact assms(2) assms(3) assms(4))+
    fix pre' d post'
    assume "x = pre' @ (''task-'' @ task) @ d # post'" and d: "is_digit d"
    then have "x = pre' @ ''task-'' @ task @ d # post'" by simp
    from assms(5) [OF this d] show "length pre \<le> length pre'" .
  qed
  then show ?thesis
    by (simp add: embedded_index_def literal_pattern_def)
qed


lemma literal_figures: "literal_task ''figures''"
  by (simp add: literal_task_def re_special_def)

section \<open>The order of the sorted files\<close>

text \<open>
  Claim C2, as amended.  For a literal task name and a list of file names that each
  contain a task index, \<open>get_segment\<close> returns a permutation of the list in
  non-decreasing order of the embedded index, whatever the order of the names as strings;
  files of equal index keep the order they had in the list.
\<close>

theorem get_segment_sorts:
  assumes lit: "literal_task task"
    and all: "list_all (contains_task_index task) files"
  shows "\<exists>ys ks. get_segment files task = Inr ys
           \<and> mset ys = mset files
           \<and> map (embedded_index task) ys = map Some ks
           \<and> sorted ks
           \<and> (\<forall>k. filter (\<lambda>f. embedded_index task f = Some k) ys
                   = filter (\<lambda>f. embedded_index task f = Some k) files)"
proof -
  let ?g = "\<lambda>x. case embedded_index task x of None \<Rightarrow> 0 | Some k \<Rightarrow> k"
  let ?ys = "sort_key ?g files"
  have some: "\<exists>k. embedded_index task f = Some k" if "f \<in> set files" for f
    using that all by (auto simp: list_all_iff contains_task_index_iff)
  have idx: "embedded_index task f = Some (?g f)" if "f \<in> set files" for f
    using some [OF that] by auto
  have keys: "list_all (\<lambda>x. segment_key (literal_pattern task) x = Inr (?g x)) files"
    unfolding list_all_iff
  proof
    fix x assume "x \<in> set files"
    with some obtain k where "embedded_index task x = Some k" by blast
    then show "segment_key (literal_pattern task) x = Inr (?g x)"
      by (simp add: segment_key_literal)
  qed
  have run: "get_segment files task = Inr ?ys"
    using lit py_sorted_all [OF keys]
    by (cases files) (simp_all add: get_segment_def segment_pattern_literal)
  have m: "map (embedded_index task) ?ys = map Some (map ?g ?ys)"
    using idx by simp
  have st: "filter (\<lambda>f. embedded_index task f = Some k) ?ys
          = filter (\<lambda>f. embedded_index task f = Some k) files" for k
  proof -
    have "filter (\<lambda>f. embedded_index task f = Some k) xs = filter (\<lambda>f. ?g f = k) xs"
      if "set xs \<subseteq> set files" for xs
      using that idx by (intro filter_cong) auto
    from this [of ?ys] this [of files] show ?thesis
      by (simp add: sort_key_stable)
  qed
  show ?thesis
    using run m st by (intro exI [of _ ?ys] exI [of _ "map ?g ?ys"]) simp
qed

theorem get_segment_sorts_witness:
  "literal_task ''figures''
   \<and> list_all (contains_task_index ''figures'')
        [''sub-01_task-figures10_bold'', ''sub-01_task-figures9_bold'',
         ''sub-01_task-figures02_bold'']
   \<and> get_segment [''sub-01_task-figures10_bold'', ''sub-01_task-figures9_bold'',
                    ''sub-01_task-figures02_bold''] ''figures''
       = Inr [''sub-01_task-figures02_bold'', ''sub-01_task-figures9_bold'',
              ''sub-01_task-figures10_bold'']
   \<and> map (embedded_index ''figures'')
         [''sub-01_task-figures02_bold'', ''sub-01_task-figures9_bold'',
          ''sub-01_task-figures10_bold'']
       = map Some [2, 9, 10]
   \<and> sorted [2, 9, 10 :: int]"
proof -
  let ?files = "[''sub-01_task-figures10_bold'', ''sub-01_task-figures9_bold'',
                 ''sub-01_task-figures02_bold'']"
  have idx: "map (embedded_index ''figures'') ?files = [Some 10, Some 9, Some 2]"
    by code_simp
  then have all: "list_all (contains_task_index ''figures'') ?files"
    by (simp add: contains_task_index_iff)
  have run: "get_segment ?files ''figures''
       = Inr [''sub-01_task-figures02_bold'', ''sub-01_task-figures9_bold'',
              ''sub-01_task-figures10_bold'']"
    by code_simp
  from get_segment_sorts [OF literal_figures all] obtain ys ks where
    "get_segment ?files ''figures'' = Inr ys"
    "map (embedded_index ''figures'') ys = map Some ks" "sorted ks"
    by blast
  with run idx have "map (embedded_index ''figures'')
         [''sub-01_task-figures02_bold'', ''sub-01_task-figures9_bold'',
          ''sub-01_task-figures10_bold''] = map Some [2, 9, 10] \<and> sorted [2, 9, 10 :: int]"
    by auto
  with literal_figures all run show ?thesis
    by blast
qed

text \<open>
  Claim C2 as stated does not restrict the task name.  The name is read as a pattern:
  with the task \<^verbatim>\<open>.\<close> the pattern \<^verbatim>\<open>task-.(\d+)\<close> finds \<^verbatim>\<open>task-a9\<close> in the first
  file below, so the file with \<^verbatim>\<open>task-.1\<close> is sorted behind the one with
  \<^verbatim>\<open>task-.5\<close>.
\<close>

theorem get_segment_sorts_counterexample:
  "contains_task_index ''.'' ''task-a9task-.1''
   \<and> contains_task_index ''.'' ''task-.5''
   \<and> get_segment [''task-a9task-.1'', ''task-.5''] ''.'' = Inr [''task-.5'', ''task-a9task-.1'']
   \<and> map (embedded_index ''.'') [''task-.5'', ''task-a9task-.1''] = [Some 5, Some 1]
   \<and> \<not> sorted [5, 1 :: int]"
proof -
  have idx: "map (embedded_index ''.'') [''task-.5'', ''task-a9task-.1''] = [Some 5, Some 1]"
    by code_simp
  then have "contains_task_index ''.'' ''task-a9task-.1''" "contains_task_index ''.'' ''task-.5''"
    by (simp_all add: contains_task_index_iff)
  moreover have "get_segment [''task-a9task-.1'', ''task-.5''] ''.''
       = Inr [''task-.5'', ''task-a9task-.1'']"
    by code_simp
  ultimately show ?thesis
    using idx by simp
qed

section \<open>File names without a segment index\<close>

text \<open>
  Claim C8, as amended.  For a literal task name, a list with a file name that does not
  contain a task index makes \<open>get_segment\<close> fail: the search finds no match and the
  key function raises \<^verbatim>\<open>AttributeError\<close>; no sorted list is returned.
\<close>

theorem get_segment_fails:
  assumes lit: "literal_task task"
    and mem: "f \<in> set files"
    and no: "\<not> contains_task_index task f"
  shows "get_segment files task = Inl AttributeError"
proof -
  let ?key = "segment_key (literal_pattern task)"
  from no have "?key f = Inl AttributeError"
    by (simp add: segment_key_literal contains_task_index_iff)
  moreover have "e = AttributeError" if "?key x = Inl e" for x e
    using that by (auto simp: segment_key_def split: option.splits)
  ultimately have "decorate ?key files = Inl AttributeError"
    using mem by (intro decorate_fails [where x = f]) auto
  with lit mem show ?thesis
    by (auto simp: get_segment_def segment_pattern_literal py_sorted_def)
qed

theorem get_segment_fails_witness:
  "literal_task ''figures''
   \<and> ''sub-01_figures9_bold'' \<in> set [''sub-01_task-figures10_bold'', ''sub-01_figures9_bold'']
   \<and> \<not> contains_task_index ''figures'' ''sub-01_figures9_bold''
   \<and> get_segment [''sub-01_task-figures10_bold'', ''sub-01_figures9_bold''] ''figures''
       = Inl AttributeError"
proof -
  have "embedded_index ''figures'' ''sub-01_figures9_bold'' = None"
    by code_simp
  then have no: "\<not> contains_task_index ''figures'' ''sub-01_figures9_bold''"
    by (simp add: contains_task_index_iff)
  have mem: "''sub-01_figures9_bold''
      \<in> set [''sub-01_task-figures10_bold'', ''sub-01_figures9_bold'']"
    by simp
  from get_segment_fails [OF literal_figures mem no] literal_figures mem no
  show ?thesis by blast
qed

text \<open>
  Claim C8 as stated does not restrict the task name.  With the task \<^verbatim>\<open>.\<close> the file
  \<^verbatim>\<open>task-a1\<close> does not contain \<^verbatim>\<open>task-.\<close> followed by a digit, yet the pattern
  \<^verbatim>\<open>task-.(\d+)\<close> matches it and the call returns a list.
\<close>

theorem get_segment_fails_counterexample:
  "\<not> contains_task_index ''.'' ''task-a1''
   \<and> ''task-a1'' \<in> set [''task-a1'']
   \<and> get_segment [''task-a1''] ''.'' = Inr [''task-a1'']"
proof -
  have "embedded_index ''.'' ''task-a1'' = None"
    by code_simp
  then have "\<not> contains_task_index ''.'' ''task-a1''"
    by (simp add: contains_task_index_iff)
  moreover have "get_segment [''task-a1''] ''.'' = Inr [''task-a1'']"
    by code_simp
  ultimately show ?thesis by simp
qed

section \<open>The main loop: lemmas\<close>

lemma printed_append: "printed (xs @ ys) = printed xs @ printed ys"
  by (induction xs rule: printed.induct) simp_all

lemma snd_io_bind:
  "snd (io_bind m f) = snd m @ (case fst m of Inl e \<Rightarrow> [] | Inr a \<Rightarrow> snd (f a))"
  by (cases m; cases "fst m") (auto simp: io_bind_def split: prod.splits)

lemma printed_io_bind:
  "printed (snd m) = [] \<Longrightarrow> (\<And>a. printed (snd (f a)) = []) \<Longrightarrow> printed (snd (io_bind m f)) = []"
  by (simp add: snd_io_bind printed_append split: sum.splits)

lemma printed_simple [simp]:
  "printed (snd (io_lift r)) = []" "printed (snd (io_raise e)) = []"
  "printed (snd (io_return a)) = []" "printed (snd (read_global nm v)) = []"
  by (simp_all add: io_lift_def io_raise_def io_return_def read_global_def split: option.splits)

lemma printed_subset_confounds [simp]: "printed (snd (subset_confounds L r)) = []"
  by (simp add: snd_subset_confounds)

lemma printed_nifti [simp]: "printed (snd (nifti_mask_movie L m k c fwhm)) = []"
  by (simp add: snd_nifti_mask_movie)

lemma printed_load_confounds [simp]: "printed (snd (load_confounds L rs)) = []"
  by (induction rs) (simp_all add: printed_io_bind)

lemma printed_postproc_loop [simp]: "printed (snd (postproc_loop L g fwhm cs n ms acc)) = []"
  by (induction ms arbitrary: n acc) (simp_all add: printed_io_bind)

lemma printed_save_image [simp]: "printed (snd (save_image L movie nm)) = []"
  by (simp add: save_image_def io_emit_def io_raise_def)

lemma printed_subset_and_process [simp]:
  "printed (snd (subset_and_process_movie10 L g bold regs sl n fwhm)) = []"
  by (simp add: subset_and_process_movie10_def printed_io_bind split: option.splits)

lemma printed_list_files [simp]: "printed (snd (list_files L dir pat)) = []"
  by (simp add: list_files_def io_bind_def io_emit_def io_return_def)

lemma printed_lookup_task [simp]: "printed (snd (lookup_task dd t)) = []"
  by (simp add: lookup_task_def split: option.splits)

lemma printed_pair_work [simp]: "printed (snd (pair_work L dd s t)) = []"
  by (simp add: pair_work_def Let_def printed_io_bind)

lemma process_pair_cases:
  "(\<exists>e. fst (pair_work L dd s t) = Inl e
        \<and> process_pair L dd s t = (Inl e, snd (pair_work L dd s t)))
   \<or> (\<exists>nm. fst (pair_work L dd s t) = Inr nm
        \<and> process_pair L dd s t = (Inr (), snd (pair_work L dd s t) @ [Print s t]))"
  by (cases "pair_work L dd s t"; cases "fst (pair_work L dd s t)")
     (auto simp: process_pair_def io_bind_def io_emit_def)

lemma step_of_ReadConfounds: "map (step_of \<circ> ReadConfounds) rs = replicate (length rs) Load"
  by (induction rs) simp_all

lemma step_of_Clean: "map (step_of \<circ> Clean) ms = replicate (length ms) CleanSegment"
  by (induction ms) simp_all

lemma list_files_eq:
  "list_files L dir pat = (Inr (rglob L dir pat), [Glob dir pat])"
  by (simp add: list_files_def io_bind_def io_emit_def io_return_def)

lemma lookup_task_eq:
  "lookup_task dd t = (Inr e, es) \<longleftrightarrow> map_of dd t = Some e \<and> es = []"
  by (auto simp: lookup_task_def split: option.splits)

lemma pair_work_trace:
  fixes L :: "('v, 'f) lib"
  assumes "pair_work L dd s t = (Inr nm, es)"
  shows "pair_trace L dd (s, t) (es @ [Print s t])"
proof -
  let ?p1 = "''*'' @ t @ ''*''" 
  from assms obtain e where e: "map_of dd t = Some e"
    by (auto simp: pair_work_def Let_def io_bind_eq_Inr lookup_task_eq)
  let ?p1 = "''*'' @ t @ ''*'' @ key_tmpl_str e @ ''.nii.gz''"
  let ?p2 = "''*_task-'' @ t @ ''*'' @ key_regr_str e"
  let ?g = "\<lparr>var_s = Some s, var_t = Some t, var_seg_len = Some (key_segment_lengths e),
             var_tmpl = Some (key_tmpl_str e)\<rparr>"
  have lk: "lookup_task dd t = (Inr e, [])"
    using e by (simp add: lookup_task_eq)
  from assms obtain ms rs es' where
    ms: "get_segment (rglob L s ?p1) t = Inr ms" and
    rs: "get_segment (rglob L s ?p2) t = Inr rs" and
    run: "subset_and_process_movie10 L ?g ms rs (key_segment_lengths e) (Some 5) (Some 6)
            = (Inr nm, es')" and
    es: "es = [Glob s ?p1, Glob s ?p2] @ es'"
    unfolding pair_work_def Let_def lk
    by (auto simp: io_bind_eq_Inr list_files_eq io_return_def)
  from run obtain n s' t' tmpl and imgs :: "'f list list" and movie where
    n: "Some 5 = Some n" and le: "n \<le> int (length ms)" and
    g: "var_s ?g = Some s'" "var_t ?g = Some t'" "var_tmpl ?g = Some tmpl" and
    nm: "nm = postproc_fname s' t' tmpl (Some 6)" and
    len: "length imgs = length (py_slice_to n ms)" and
    lr: "length imgs \<le> length (py_slice_to n rs)" and
    es': "es' = map ReadConfounds (py_slice_to n rs) @ map Clean (py_slice_to n ms)
            @ [Saved nm movie]"
    by (elim subset_and_process_Inr) blast
  from n have [simp]: "n = 5" by simp
  from g nm have nm': "nm = postproc_fname s t (key_tmpl_str e) (Some 6)" by simp
  from le have lms: "5 \<le> length ms" by simp
  with len lr have lrs: "5 \<le> length rs"
    by (simp add: py_slice_to_def)
  have "es @ [Print s t] = [Glob s ?p1, Glob s ?p2]
               @ map ReadConfounds (take 5 rs) @ map Clean (take 5 ms)
               @ [Saved (postproc_fname s t (key_tmpl_str e) (Some 6)) movie, Print s t]"
    by (simp add: es es' nm' py_slice_to_def)
  with e ms rs lms lrs show ?thesis
    unfolding pair_trace_def by blast
qed

lemma pair_trace_steps: "pair_trace L dd p es \<Longrightarrow> map step_of es = pair_steps"
  by (auto simp: pair_trace_def pair_steps_def step_of_ReadConfounds step_of_Clean)

lemma printed_ReadConfounds: "printed (map ReadConfounds rs) = []"
  by (induction rs) simp_all

lemma printed_Clean: "printed (map Clean ms) = []"
  by (induction ms) simp_all

lemma pair_trace_printed: "pair_trace L dd p es \<Longrightarrow> printed es = [p]"
  by (auto simp: pair_trace_def printed_append printed_ReadConfounds printed_Clean)


lemma main_loop_traces:
  "\<exists>rest. pairs = printed (snd (main_loop L dd pairs)) @ rest
     \<and> (fst (main_loop L dd pairs) = Inr () \<longrightarrow>
          rest = [] \<and> (\<exists>traces. snd (main_loop L dd pairs) = concat traces
                          \<and> list_all2 (pair_trace L dd) pairs traces))
     \<and> (fst (main_loop L dd pairs) \<noteq> Inr () \<longrightarrow> rest \<noteq> [])"
proof (induction pairs)
  case Nil
  then show ?case by (simp add: io_return_def)
next
  case (Cons p pairs)
  obtain s t where p: "p = (s, t)" by (cases p)
  let ?w = "pair_work L dd s t"
  let ?rec = "main_loop L dd pairs"
  from process_pair_cases [of L dd s t] show ?case
  proof (elim disjE exE conjE)
    fix e assume w: "fst ?w = Inl e" and pp: "process_pair L dd s t = (Inl e, snd ?w)"
    then have "main_loop L dd (p # pairs) = (Inl e, snd ?w)"
      by (simp add: p io_bind_def)
    then show ?thesis
      by (intro exI [of _ "p # pairs"]) simp
  next
    fix nm assume w: "fst ?w = Inr nm"
      and pp: "process_pair L dd s t = (Inr (), snd ?w @ [Print s t])"
    let ?tr = "snd ?w @ [Print s t]"
    from w have weq: "?w = (Inr nm, snd ?w)" by (cases ?w) simp
    have tr: "pair_trace L dd p ?tr"
      using pair_work_trace [OF weq] by (simp add: p)
    have loop: "main_loop L dd (p # pairs) = (fst ?rec, ?tr @ snd ?rec)"
      using pp by (simp add: p io_bind_def split: prod.splits)
    from Cons.IH obtain rest where
      r1: "pairs = printed (snd ?rec) @ rest" and
      r2: "fst ?rec = Inr () \<longrightarrow> rest = [] \<and> (\<exists>traces. snd ?rec = concat traces
                          \<and> list_all2 (pair_trace L dd) pairs traces)" and
      r3: "fst ?rec \<noteq> Inr () \<longrightarrow> rest \<noteq> []"
      by blast
    have f: "fst (main_loop L dd (p # pairs)) = fst ?rec"
      and sn: "snd (main_loop L dd (p # pairs)) = ?tr @ snd ?rec"
      by (simp_all only: loop fst_conv snd_conv)
    have pr: "printed (snd (main_loop L dd (p # pairs))) = p # printed (snd ?rec)"
      using pair_trace_printed [OF tr] by (simp only: sn printed_append) simp
    have st: "fst ?rec = Inr () \<longrightarrow>
        (\<exists>traces. snd (main_loop L dd (p # pairs)) = concat traces
           \<and> list_all2 (pair_trace L dd) (p # pairs) traces)"
    proof
      assume "fst ?rec = Inr ()"
      with r2 obtain traces where "snd ?rec = concat traces"
        "list_all2 (pair_trace L dd) pairs traces"
        by blast
      with tr sn have "snd (main_loop L dd (p # pairs)) = concat (?tr # traces)
          \<and> list_all2 (pair_trace L dd) (p # pairs) (?tr # traces)"
        by simp
      then show "\<exists>traces. snd (main_loop L dd (p # pairs)) = concat traces
           \<and> list_all2 (pair_trace L dd) (p # pairs) traces"
        by blast
    qed
    show ?thesis
      using r1 r2 r3 pr st
      by (intro exI [of _ rest]) (simp only: f, simp del: main_loop.simps)
  qed
qed

lemma traces_steps:
  "list_all2 (pair_trace L dd) pairs traces \<Longrightarrow>
     map step_of (concat traces) = concat (replicate (length pairs) pair_steps)"
  by (induction pairs traces rule: list_all2_induct) (simp_all add: pair_trace_steps)

lemma grid_value:
  "grid =
     [(''sub-01'', ''bourne''), (''sub-01'', ''wolf''), (''sub-01'', ''figures''), (''sub-01'', ''life''),
      (''sub-02'', ''bourne''), (''sub-02'', ''wolf''), (''sub-02'', ''figures''), (''sub-02'', ''life''),
      (''sub-03'', ''bourne''), (''sub-03'', ''wolf''), (''sub-03'', ''figures''), (''sub-03'', ''life''),
      (''sub-04'', ''bourne''), (''sub-04'', ''wolf''), (''sub-04'', ''figures''), (''sub-04'', ''life''),
      (''sub-05'', ''bourne''), (''sub-05'', ''wolf''), (''sub-05'', ''figures''), (''sub-05'', ''life''),
      (''sub-06'', ''bourne''), (''sub-06'', ''wolf''), (''sub-06'', ''figures''), (''sub-06'', ''life'')]"
  by (simp add: grid_def subjects_def create_data_dictionary_value)

lemma main_eq: "main L = main_loop L (snd create_data_dictionary) grid"
  by (simp add: main_def grid_def case_prod_unfold)

lemma demo_main_ok: "fst (main demo_lib) = Inr ()"
  by code_simp

lemma sub01_only_main:
  "fst (main sub01_only_lib) = Inl AssertionError
   \<and> printed (snd (main sub01_only_lib)) =
       [(''sub-01'', ''bourne''), (''sub-01'', ''wolf''), (''sub-01'', ''figures''),
        (''sub-01'', ''life'')]"
  by code_simp

section \<open>The main program over the grid\<close>

text \<open>
  Claim C7, as amended.  The grid is the 24 pairs of 6 subjects and 4 tasks, each once,
  subject-major and task-minor.  In every run the pairs whose loop body has run to its
  end are an initial part of the grid, in grid order.  In a run in which no pair raises
  they are the whole grid, and the run is the sequence of the runs of the pairs, each
  the same fixed sequence \<open>pair_trace\<close>: the BOLD files and the regressor files are
  located and each list is sorted by segment index, the first five confound files are
  loaded, the first five segments are cleaned (and cut), and the concatenation is
  written, before the pair is reported.  A pair that raises ends the run, and the pairs
  after it are not visited.
\<close>

theorem main_visits_grid:
  "grid = concat (map (\<lambda>s. map (Pair s) [''bourne'', ''wolf'', ''figures'', ''life''])
                   [''sub-01'', ''sub-02'', ''sub-03'', ''sub-04'', ''sub-05'', ''sub-06''])
   \<and> length grid = 24 \<and> distinct grid
   \<and> (\<exists>rest. grid = printed (snd (main L)) @ rest
        \<and> (fst (main L) = Inr () \<longrightarrow>
              rest = []
            \<and> (\<exists>traces. snd (main L) = concat traces
                  \<and> list_all2 (pair_trace L (snd create_data_dictionary)) grid traces)
            \<and> map step_of (snd (main L)) = concat (replicate 24 pair_steps))
        \<and> (fst (main L) \<noteq> Inr () \<longrightarrow> rest \<noteq> []))"
proof -
  have g: "grid = concat (map (\<lambda>s. map (Pair s) [''bourne'', ''wolf'', ''figures'', ''life''])
                   [''sub-01'', ''sub-02'', ''sub-03'', ''sub-04'', ''sub-05'', ''sub-06''])"
    and len: "length grid = 24" and d: "distinct grid"
    by (simp_all add: grid_value)
  from main_loop_traces [of grid L "snd create_data_dictionary"] obtain rest where
    r1: "grid = printed (snd (main L)) @ rest" and
    r2: "fst (main L) = Inr () \<longrightarrow> rest = []
           \<and> (\<exists>traces. snd (main L) = concat traces
                 \<and> list_all2 (pair_trace L (snd create_data_dictionary)) grid traces)" and
    r3: "fst (main L) \<noteq> Inr () \<longrightarrow> rest \<noteq> []"
    unfolding main_eq by blast
  have steps: "fst (main L) = Inr () \<longrightarrow>
      map step_of (snd (main L)) = concat (replicate 24 pair_steps)"
    using r2 traces_steps [of L "snd create_data_dictionary" grid] len by auto
  from g len d r1 r2 r3 steps show ?thesis
    by blast
qed

theorem main_visits_grid_witness:
  "fst (main demo_lib) = Inr ()
   \<and> printed (snd (main demo_lib)) = grid
   \<and> map step_of (snd (main demo_lib)) = concat (replicate 24 pair_steps)
   \<and> fst (main sub01_only_lib) \<noteq> Inr ()
   \<and> (\<exists>rest. rest \<noteq> [] \<and> grid = printed (snd (main sub01_only_lib)) @ rest)"
proof -
  from main_visits_grid [of demo_lib] demo_main_ok
  have "printed (snd (main demo_lib)) = grid
      \<and> map step_of (snd (main demo_lib)) = concat (replicate 24 pair_steps)"
    by auto
  moreover have bad: "fst (main sub01_only_lib) \<noteq> Inr ()"
    using sub01_only_main by simp
  moreover from main_visits_grid [of sub01_only_lib] bad
  have "\<exists>rest. rest \<noteq> [] \<and> grid = printed (snd (main sub01_only_lib)) @ rest"
    by auto
  ultimately show ?thesis
    using demo_main_ok by blast
qed

text \<open>
  Claim C7 as stated fails in a run where a pair raises: with files for the first
  subject only, the first pair of the second subject fails the assertion on the segment
  count, the run ends there, and twenty pairs of the grid are never visited.
\<close>

theorem main_visits_grid_counterexample:
  "fst (main sub01_only_lib) = Inl AssertionError
   \<and> printed (snd (main sub01_only_lib)) =
       [(''sub-01'', ''bourne''), (''sub-01'', ''wolf''), (''sub-01'', ''figures''),
        (''sub-01'', ''life'')]
   \<and> (''sub-02'', ''bourne'') \<in> set grid
   \<and> (''sub-02'', ''bourne'') \<notin> set (printed (snd (main sub01_only_lib)))"
  using sub01_only_main by (simp add: grid_value)

end
